theory Spec2Isabelle
  imports Complex_Main "HOL-Library.AList" "HOL-Library.Product_Lexorder" "HOL-Library.Multiset"
begin

section \<open>Data model\<close>

text \<open>
  The documents of the store, as the Mongoose schemas declare them (the user schema
  and models/Session.js). JavaScript numbers that only ever hold counters are \<open>int\<close>;
  scores are \<open>real\<close> (the arithmetic on them is exact here, where the program rounds
  in binary floating point). Identity fields of a user (email, names, password) and the
  fields of a session filled from \<open>Math.random\<close> or from the external prediction service
  (\<open>percentileScores\<close>, \<open>mlPredictions\<close>) are left out: no function below reads them.
\<close>

record badge =
  badge_id :: string
  badge_name :: string
  badge_description :: string

record user_stats =
  totalSessions :: int
  totalPlayTime :: int
  averageScore :: real
  bestStreak :: int
  gamesPlayed :: "(string \<times> int) list"

record user =
  level :: int
  xp :: int
  streak :: int
  lastActiveDate :: int
  badges :: "badge list"
  stats :: user_stats

text \<open>The request body of \<open>POST /api/sessions\<close>, and the stored session built from it.\<close>

record session_body =
  gameType :: string
  gameDomain :: string
  difficulty :: string
  duration :: int
  score :: real
  accuracy :: real

record session = session_body +
  userId :: nat
  createdAt :: int

record db =
  sessions :: "session list"
  users :: "(nat \<times> user) list"

text \<open>The schema defaults of a freshly registered user; \<open>now\<close> is \<open>Date.now\<close>.\<close>

definition new_user :: "int \<Rightarrow> user" where
  "new_user now =
     \<lparr>level = 1, xp = 0, streak = 0, lastActiveDate = now, badges = [],
      stats = \<lparr>totalSessions = 0, totalPlayTime = 0, averageScore = 0,
               bestStreak = 0, gamesPlayed = []\<rparr>\<rparr>"

section \<open>User methods\<close>

text \<open>
  \<open>userSchema.methods.addXP\<close>: returns the user and the pair
  \<open>(leveledUp, newLevel)\<close>, \<open>newLevel\<close> being absent when no level was gained.
\<close>

definition addXP :: "user \<Rightarrow> int \<Rightarrow> user \<times> bool \<times> int option" where
  "addXP u points =
     (let u1 = u\<lparr>xp := xp u + points\<rparr>;
          newLevel = xp u1 div 1000 + 1
      in if newLevel > level u1 then (u1\<lparr>level := newLevel\<rparr>, True, Some newLevel)
         else (u1, False, None))"

text \<open>\<open>userSchema.methods.awardBadge\<close>: appends unless a badge of that id exists.\<close>

definition awardBadge :: "user \<Rightarrow> badge \<Rightarrow> user \<times> bool" where
  "awardBadge u badgeData =
     (case find (\<lambda>b. badge_id b = badge_id badgeData) (badges u) of
        None \<Rightarrow> (u\<lparr>badges := badges u @ [badgeData]\<rparr>, True)
      | Some existingBadge \<Rightarrow> (u, False))"

section \<open>Badge rules\<close>

text \<open>Decimal rendering of a counter, as a template string interpolates it.\<close>

definition digit_char :: "nat \<Rightarrow> char" where
  "digit_char d = ''0123456789'' ! d"

fun decimal :: "nat \<Rightarrow> string" where
  "decimal n = (if 10 \<le> n then decimal (n div 10) @ [digit_char (n mod 10)] else [digit_char n])"

declare decimal.simps [simp del]

definition number_text :: "int \<Rightarrow> string" where
  "number_text i = (if 0 \<le> i then decimal (nat i) else CHR ''-'' # decimal (nat (- i)))"

text \<open>
  \<open>checkAndAwardBadges\<close>, first half: the candidate list, in the order the four rules
  push onto it.
\<close>

definition candidate_badges :: "user \<Rightarrow> session \<Rightarrow> badge list" where
  "candidate_badges u s =
     (if totalSessions (stats u) = 1
      then [\<lparr>badge_id = ''first-session'', badge_name = ''Getting Started'',
             badge_description = ''Completed your first cognitive training session''\<rparr>]
      else []) @
     (if score s = 100
      then [\<lparr>badge_id = ''perfect-score'', badge_name = ''Perfect Performance'',
             badge_description = ''Achieved a perfect score in a training session''\<rparr>]
      else []) @
     (if totalSessions (stats u) \<in> set [10, 25, 50, 100]
      then [\<lparr>badge_id = ''sessions-'' @ number_text (totalSessions (stats u)),
             badge_name = number_text (totalSessions (stats u)) @ '' Sessions'',
             badge_description = ''Completed '' @ number_text (totalSessions (stats u))
                @ '' training sessions''\<rparr>]
      else []) @
     (if streak u \<in> set [7, 14, 30]
      then [\<lparr>badge_id = ''streak-'' @ number_text (streak u),
             badge_name = number_text (streak u) @ ''-Day Streak'',
             badge_description = ''Maintained a '' @ number_text (streak u)
                @ ''-day training streak''\<rparr>]
      else [])"

text \<open>Second half: the award loop, with the 100 XP bonus for each badge really added.\<close>

fun award_loop :: "user \<Rightarrow> badge list \<Rightarrow> user" where
  "award_loop u [] = u"
| "award_loop u (b # bs) =
     (case awardBadge u b of
        (u1, awarded) \<Rightarrow> award_loop (if awarded then fst (addXP u1 100) else u1) bs)"

definition checkAndAwardBadges :: "user \<Rightarrow> session \<Rightarrow> user" where
  "checkAndAwardBadges u s = award_loop u (candidate_badges u s)"

section \<open>POST /api/sessions\<close>

text \<open>
  The six validators of the route, in order; each failing one contributes the name of
  its field to \<open>errors.array()\<close>. The body is typed here: \<open>duration\<close> is already an
  integer and the two scores are numbers. The validators accept a numeric string in
  their place as well; what the additions of the handler make of one is modelled apart,
  in the section on request values as sent.
\<close>

definition game_types :: "string list" where
  "game_types = [''n-back'', ''dual-task'', ''flanker'', ''attention-network'',
     ''simple-reaction'', ''choice-reaction'', ''ravens-matrices'', ''tower-hanoi'']"

definition game_domains :: "string list" where
  "game_domains = [''working_memory'', ''attention'', ''processing_speed'', ''problem_solving'']"

definition difficulties :: "string list" where
  "difficulties = [''easy'', ''medium'', ''hard'']"

definition validation_errors :: "session_body \<Rightarrow> string list" where
  "validation_errors b =
     (if gameType b \<in> set game_types then [] else [''gameType'']) @
     (if gameDomain b \<in> set game_domains then [] else [''domain'']) @
     (if difficulty b \<in> set difficulties then [] else [''difficulty'']) @
     (if 1 \<le> duration b then [] else [''duration'']) @
     (if 0 \<le> score b \<and> score b \<le> 100 then [] else [''score'']) @
     (if 0 \<le> accuracy b \<and> accuracy b \<le> 100 then [] else [''accuracy''])"

text \<open>
  The body of the handler between \<open>User.findById\<close> and \<open>user.save()\<close>: counters,
  running average, per-game count, XP, badges. It returns the user, \<open>xpGained\<close> and the
  result of the first \<open>addXP\<close>.
\<close>

definition update_user_stats :: "user \<Rightarrow> session \<Rightarrow> user \<times> int \<times> bool \<times> int option" where
  "update_user_stats u sessionData =
     (let st1 = (stats u)\<lparr>totalSessions := totalSessions (stats u) + 1\<rparr>;
          st2 = st1\<lparr>totalPlayTime := totalPlayTime st1 + duration sessionData\<rparr>;
          totalScore = averageScore st2 * of_int (totalSessions st2 - 1) + score sessionData;
          st3 = st2\<lparr>averageScore := totalScore / of_int (totalSessions st2)\<rparr>;
          currentCount = (case map_of (gamesPlayed st3) (gameType sessionData) of
                            None \<Rightarrow> 0 | Some c \<Rightarrow> c);
          st4 = st3\<lparr>gamesPlayed :=
                  AList.update (gameType sessionData) (currentCount + 1) (gamesPlayed st3)\<rparr>;
          u1 = u\<lparr>stats := st4\<rparr>;
          xpGained = \<lfloor>score sessionData / 10\<rfloor> * 10 + 50;
          (u2, levelResult) = addXP u1 xpGained;
          u3 = checkAndAwardBadges u2 sessionData
      in (u3, xpGained, levelResult))"

datatype response =
    Created int bool "int option" int int
  | BadRequest "string list"
  | ServerError

text \<open>
  The handler for the authenticated user \<open>uid\<close> at time \<open>now\<close>. A failed validation
  answers 400 before anything is written. Otherwise the session is saved first; a
  missing user document then makes \<open>user.stats\<close> throw, which the handler turns into
  500. The prediction call that follows \<open>user.save()\<close> only fills \<open>mlPredictions\<close>.
\<close>

definition post_session :: "db \<Rightarrow> nat \<Rightarrow> int \<Rightarrow> session_body \<Rightarrow> response \<times> db" where
  "post_session d uid now body =
     (let errors = validation_errors body
      in if errors \<noteq> [] then (BadRequest errors, d)
         else
           let sess = session_body.extend body \<lparr>userId = uid, createdAt = now\<rparr>;
               d1 = d\<lparr>sessions := sessions d @ [sess]\<rparr>
           in case map_of (users d1) uid of
                None \<Rightarrow> (ServerError, d1)
              | Some u \<Rightarrow>
                  (case update_user_stats u sess of
                     (u', xpGained, leveledUp, newLevel) \<Rightarrow>
                       (Created xpGained leveledUp newLevel (xp u') (level u'),
                        d1\<lparr>users := AList.update uid u' (users d1)\<rparr>)))"

text \<open>A run of requests, each by some authenticated user at some time.\<close>

fun submit_all :: "db \<Rightarrow> (nat \<times> int \<times> session_body) list \<Rightarrow> db" where
  "submit_all d [] = d"
| "submit_all d ((uid, now, body) # rs) = submit_all (snd (post_session d uid now body)) rs"

section \<open>Derived notions and fixtures\<close>

text \<open>
  The scores of the submissions by \<open>uid\<close> that pass validation, in order of arrival:
  the \<open>s\<^sub>1 .. s\<^sub>N\<close> of a user's accepted sessions.
\<close>

definition accepted_scores :: "nat \<Rightarrow> (nat \<times> int \<times> session_body) list \<Rightarrow> real list" where
  "accepted_scores uid reqs =
     map (\<lambda>(v, now, b). score b)
       (filter (\<lambda>(v, now, b). v = uid \<and> validation_errors b = []) reqs)"

text \<open>The ids the streak rule of \<open>checkAndAwardBadges\<close> can produce.\<close>

definition streak_badge_ids :: "string set" where
  "streak_badge_ids = {''streak-7'', ''streak-14'', ''streak-30''}"

text \<open>
  Concrete inputs used below: a perfect first session of \<open>n-back\<close>, and a store
  holding one freshly registered user, with id 1.
\<close>

definition scenario_body :: session_body where
  "scenario_body = \<lparr>gameType = ''n-back'', gameDomain = ''working_memory'',
     difficulty = ''medium'', duration = 60, score = 100, accuracy = 100\<rparr>"

definition scenario_db :: db where
  "scenario_db = \<lparr>sessions = [], users = [(1, new_user 0)]\<rparr>"

text \<open>The user document that the perfect first session leaves behind.\<close>

definition scenario_user :: "int \<Rightarrow> user" where
  "scenario_user t0 =
     \<lparr>level = 1, xp = 350, streak = 0, lastActiveDate = t0,
      badges =
        [\<lparr>badge_id = ''first-session'', badge_name = ''Getting Started'',
          badge_description = ''Completed your first cognitive training session''\<rparr>,
         \<lparr>badge_id = ''perfect-score'', badge_name = ''Perfect Performance'',
          badge_description = ''Achieved a perfect score in a training session''\<rparr>],
      stats = \<lparr>totalSessions = 1, totalPlayTime = 60, averageScore = 100,
               bestStreak = 0, gamesPlayed = [(''n-back'', 1)]\<rparr>\<rparr>"

section \<open>Leaderboard\<close>

text \<open>
  The aggregation of \<open>GET /api/users/leaderboard\<close>. \<open>$round\<close> rounds halves to the even
  neighbour; with a place of 1 it rounds to one decimal.
\<close>

definition round_half_even :: "real \<Rightarrow> int" where
  "round_half_even x =
     (let f = \<lfloor>x\<rfloor>; d = x - of_int f
      in if d < 1 / 2 then f else if 1 / 2 < d then f + 1
         else if even f then f else f + 1)"

definition round_place1 :: "real \<Rightarrow> real" where
  "round_place1 x = of_int (round_half_even (x * 10)) / 10"

record lb_entry =
  entry_userId :: nat
  entry_level :: int
  entry_totalSessions :: int
  entry_averageScore :: real
  entry_totalXP :: int
  entry_bestScore :: real

record ranked_entry = lb_entry +
  rank :: int
  isCurrentUser :: bool

text \<open>
  The start of the window. The local midnight and the first of the month come from
  the calendar of the server and are parameters.
\<close>

definition start_date :: "string \<Rightarrow> int \<Rightarrow> int \<Rightarrow> int \<Rightarrow> int" where
  "start_date timeframe now midnight monthStart =
     (if timeframe = ''daily'' then midnight
      else if timeframe = ''weekly'' then now - 7 * 24 * 60 * 60 * 1000
      else if timeframe = ''monthly'' then monthStart
      else now - 7 * 24 * 60 * 60 * 1000)"

text \<open>\<open>$match\<close> and \<open>$group\<close>: the sessions of the window, one group for each user id.\<close>

definition in_window :: "db \<Rightarrow> int \<Rightarrow> session list" where
  "in_window d startDate = filter (\<lambda>s. startDate \<le> createdAt s) (sessions d)"

definition group_by_user :: "session list \<Rightarrow> (nat \<times> session list) list" where
  "group_by_user ss = map (\<lambda>u. (u, filter (\<lambda>s. userId s = u) ss)) (remdups (map userId ss))"

text \<open>
  The accumulators of a group, then \<open>$lookup\<close>, \<open>$unwind\<close> and \<open>$project\<close>: a group whose
  user document is missing is dropped by \<open>$unwind\<close>.
\<close>

definition project_group :: "db \<Rightarrow> nat \<times> session list \<Rightarrow> lb_entry option" where
  "project_group d g =
     (case map_of (users d) (fst g) of
        None \<Rightarrow> None
      | Some u \<Rightarrow>
          Some \<lparr>entry_userId = fst g,
                entry_level = level u,
                entry_totalSessions = int (length (snd g)),
                entry_averageScore =
                  round_place1 (sum_list (map score (snd g)) / real (length (snd g))),
                entry_totalXP = round_half_even (sum_list (map (\<lambda>s. score s * (1 / 10)) (snd g))),
                entry_bestScore = Max (set (map score (snd g)))\<rparr>)"

definition leaderboard_entries :: "db \<Rightarrow> int \<Rightarrow> lb_entry list" where
  "leaderboard_entries d startDate =
     List.map_filter (project_group d) (group_by_user (in_window d startDate))"

text \<open>
  \<open>$sort: {averageScore: -1, totalSessions: -1}\<close>, as a sort on the negated pair under
  the lexicographic order, and \<open>$limit\<close>, which refuses a limit that is not positive:
  the handler then answers 500. The sort runs after \<open>$project\<close>, on the rounded mean.
  \<open>get_leaderboard\<close> is the \<open>leaderboard\<close> field of the reply, \<open>limit\<close> the value of
  \<open>parseInt(limit)\<close>; the second aggregation for \<open>currentUserRank\<close> and the count of
  all users are not part of it.
\<close>

definition sort_entries :: "lb_entry list \<Rightarrow> lb_entry list" where
  "sort_entries es = sort_key (\<lambda>e. (- entry_averageScore e, - entry_totalSessions e)) es"

definition add_ranks :: "nat \<Rightarrow> lb_entry list \<Rightarrow> ranked_entry list" where
  "add_ranks uid es =
     map (\<lambda>(index, e). lb_entry.extend e
            \<lparr>rank = int index + 1, isCurrentUser = (entry_userId e = uid)\<rparr>)
         (enumerate 0 es)"

definition get_leaderboard ::
    "db \<Rightarrow> nat \<Rightarrow> string \<Rightarrow> int \<Rightarrow> int \<Rightarrow> int \<Rightarrow> int \<Rightarrow> ranked_entry list option" where
  "get_leaderboard d uid timeframe limit now midnight monthStart =
     (let startDate = start_date timeframe now midnight monthStart
      in if limit \<le> 0 then None
         else Some (add_ranks uid
                (take (nat limit) (sort_entries (leaderboard_entries d startDate)))))"

text \<open>
  The mean score and the number of sessions of a user in the window, from the stored
  sessions directly.
\<close>

definition window_scores :: "db \<Rightarrow> int \<Rightarrow> nat \<Rightarrow> real list" where
  "window_scores d startDate uid =
     map score (filter (\<lambda>s. startDate \<le> createdAt s \<and> userId s = uid) (sessions d))"

definition window_mean :: "db \<Rightarrow> int \<Rightarrow> nat \<Rightarrow> real" where
  "window_mean d startDate uid =
     sum_list (window_scores d startDate uid) / real (length (window_scores d startDate uid))"

text \<open>The order the leaderboard is described with: higher mean first, then more sessions.\<close>

definition ranks_before :: "'a lb_entry_scheme \<Rightarrow> 'b lb_entry_scheme \<Rightarrow> bool" where
  "ranks_before a b \<longleftrightarrow>
     entry_averageScore b < entry_averageScore a
     \<or> (entry_averageScore a = entry_averageScore b
         \<and> entry_totalSessions b \<le> entry_totalSessions a)"

text \<open>
  A store for the leaderboard: three users, one session before the window that
  starts at time 5 and four inside it.
\<close>

definition session_at :: "nat \<Rightarrow> int \<Rightarrow> real \<Rightarrow> session" where
  "session_at uid t x =
     session_body.extend (scenario_body\<lparr>score := x\<rparr>) \<lparr>userId = uid, createdAt = t\<rparr>"

definition lb_db :: db where
  "lb_db = \<lparr>sessions = [session_at 1 1 0, session_at 2 10 80, session_at 1 11 100,
                         session_at 3 12 100, session_at 1 13 100],
            users = [(1, new_user 0), (2, new_user 0), (3, new_user 0)]\<rparr>"

definition week_ms :: int where "week_ms = 7 * 24 * 60 * 60 * 1000"

definition lb_top2 :: "ranked_entry list" where
  "lb_top2 = add_ranks 3 (take (nat 2) (sort_entries (leaderboard_entries lb_db 5)))"

text \<open>
  A store in which two users' mean scores differ by less than the rounding of the
  leaderboard: user 1 has one session of 80.03125, user 2 two sessions of 80.
\<close>

definition rounding_db :: db where
  "rounding_db = \<lparr>sessions = [session_at 1 10 80.03125, session_at 2 11 80, session_at 2 12 80],
                  users = [(1, new_user 0), (2, new_user 0)]\<rparr>"

definition rounding_top :: "ranked_entry list" where
  "rounding_top = add_ranks 1 (take (nat 10) (sort_entries (leaderboard_entries rounding_db 5)))"

section \<open>Request values as sent\<close>

text \<open>
  A field of the JSON body is sent as a number or as a string, and the validators
  accept a numeric string such as \<open>"60"\<close> where they accept the number. The handler
  above is typed with numbers. What its two additions do with a string is modelled here,
  on the part of JavaScript's conversions that needs no knowledge of how a double is
  printed: a number is turned into text when it is a natural number below \<open>10\<^sup>2\<^sup>1\<close>
  (its decimal digits), a text into a number when it consists of decimal digits. \<open>None\<close>
  marks a conversion outside that part; it is not a failure of the program.
\<close>

datatype jsval = JNum real | JStr string

definition text_of_number :: "real \<Rightarrow> string option" where
  "text_of_number x =
     (if of_int \<lfloor>x\<rfloor> = x \<and> 0 \<le> x \<and> x < 10 ^ 21 then Some (decimal (nat \<lfloor>x\<rfloor>)) else None)"

definition digit_of :: "char \<Rightarrow> nat option" where
  "digit_of c = (if c \<in> set ''0123456789'' then Some (of_char c - 48) else None)"

fun digits_number :: "nat \<Rightarrow> string \<Rightarrow> nat option" where
  "digits_number acc [] = Some acc"
| "digits_number acc (c # cs) =
     (case digit_of c of None \<Rightarrow> None | Some d \<Rightarrow> digits_number (acc * 10 + d) cs)"

definition text_number :: "string \<Rightarrow> real option" where
  "text_number s = map_option real (digits_number 0 s)"

text \<open>
  \<open>x + v\<close> for a number \<open>x\<close>: a sum when \<open>v\<close> is a number, the text of \<open>x\<close> followed
  by \<open>v\<close> when \<open>v\<close> is a string. \<open>to_number\<close> is the conversion that \<open>/\<close> and a
  Mongoose number path apply.
\<close>

fun js_plus :: "real \<Rightarrow> jsval \<Rightarrow> jsval option" where
  "js_plus x (JNum y) = Some (JNum (x + y))"
| "js_plus x (JStr s) = map_option (\<lambda>t. JStr (t @ s)) (text_of_number x)"

fun to_number :: "jsval \<Rightarrow> real option" where
  "to_number (JNum y) = Some y"
| "to_number (JStr s) = text_number s"

text \<open>
  The validator of the score, \<open>isFloat({ min: 0, max: 100 })\<close>, reads the text of the
  value: for a number its own value is what is compared with the bounds, for a text of
  decimal digits the number it denotes, and the empty text is refused.
\<close>

definition score_accepted :: "jsval \<Rightarrow> bool option" where
  "score_accepted v =
     (case v of
        JNum x \<Rightarrow> Some (0 \<le> x \<and> x \<le> 100)
      | JStr s \<Rightarrow>
          if s = [] then Some False else map_option (\<lambda>x. 0 \<le> x \<and> x \<le> 100) (text_number s))"

text \<open>
  Lines 47 and 48 of the handler, with \<open>n\<close> the incremented session count, and line 44
  with the cast of the schema.
\<close>

definition raw_average :: "real \<Rightarrow> int \<Rightarrow> jsval \<Rightarrow> real option" where
  "raw_average oldAvg n rawScore =
     (case js_plus (oldAvg * of_int (n - 1)) rawScore of
        None \<Rightarrow> None
      | Some totalScore \<Rightarrow> map_option (\<lambda>t. t / of_int n) (to_number totalScore))"

definition raw_play_time :: "int \<Rightarrow> jsval \<Rightarrow> real option" where
  "raw_play_time old rawDuration =
     (case js_plus (of_int old) rawDuration of
        None \<Rightarrow> None
      | Some playTime \<Rightarrow> to_number playTime)"

section \<open>Double-precision arithmetic\<close>

text \<open>
  The numbers of the program are IEEE 754 doubles. A value is a finite number, an
  infinity or NaN; \<open>Fin x\<close> stands for a double when \<open>x\<close> is one. Zero carries no sign
  here.
\<close>

datatype jsnum = Fin real | PosInf | NegInf | NaN

text \<open>
  Rounding to the nearest double, ties to the even significand. \<open>exponent x\<close> is the
  largest \<open>e\<close> between \<open>-1022\<close> and \<open>1024\<close> with \<open>2\<^sup>e \<le> |x|\<close> (\<open>-1022\<close> for the
  subnormal range), found by searching downwards; doubles at that magnitude are the
  multiples of \<open>2\<^sup>e\<^sup>-\<^sup>5\<^sup>2\<close>, and a result of magnitude \<open>2\<^sup>1\<^sup>0\<^sup>2\<^sup>4\<close> or more is an infinity.
\<close>

definition pow2 :: "int \<Rightarrow> real" where
  "pow2 e = (if 0 \<le> e then 2 ^ nat e else 1 / 2 ^ nat (- e))"

fun binade :: "nat \<Rightarrow> int \<Rightarrow> real \<Rightarrow> int" where
  "binade 0 e a = e"
| "binade (Suc k) e a = (if pow2 e \<le> a then e else binade k (e - 1) a)"

definition exponent :: "real \<Rightarrow> int" where
  "exponent x = binade 2046 1024 \<bar>x\<bar>"

definition fl :: "real \<Rightarrow> jsnum" where
  "fl x =
     (let q = pow2 (exponent x - 52);
          y = of_int (round_half_even (x / q)) * q
      in if pow2 1024 \<le> y then PosInf else if y \<le> - pow2 1024 then NegInf else Fin y)"

text \<open>
  The arithmetic operators on these values: the exact result rounded, and the
  standard's answers where an operand is not finite or a divisor is zero.
\<close>

fun js_neg :: "jsnum \<Rightarrow> jsnum" where
  "js_neg (Fin a) = Fin (- a)"
| "js_neg PosInf = NegInf"
| "js_neg NegInf = PosInf"
| "js_neg NaN = NaN"

fun js_add :: "jsnum \<Rightarrow> jsnum \<Rightarrow> jsnum" where
  "js_add (Fin a) (Fin b) = fl (a + b)"
| "js_add NaN v = NaN"
| "js_add v NaN = NaN"
| "js_add PosInf NegInf = NaN"
| "js_add NegInf PosInf = NaN"
| "js_add PosInf v = PosInf"
| "js_add v PosInf = PosInf"
| "js_add NegInf v = NegInf"
| "js_add v NegInf = NegInf"

definition js_sub :: "jsnum \<Rightarrow> jsnum \<Rightarrow> jsnum" where
  "js_sub a b = js_add a (js_neg b)"

fun js_mul :: "jsnum \<Rightarrow> jsnum \<Rightarrow> jsnum" where
  "js_mul (Fin a) (Fin b) = fl (a * b)"
| "js_mul NaN v = NaN"
| "js_mul v NaN = NaN"
| "js_mul PosInf (Fin b) = (if b = 0 then NaN else if 0 < b then PosInf else NegInf)"
| "js_mul NegInf (Fin b) = (if b = 0 then NaN else if 0 < b then NegInf else PosInf)"
| "js_mul (Fin a) PosInf = (if a = 0 then NaN else if 0 < a then PosInf else NegInf)"
| "js_mul (Fin a) NegInf = (if a = 0 then NaN else if 0 < a then NegInf else PosInf)"
| "js_mul PosInf PosInf = PosInf"
| "js_mul NegInf NegInf = PosInf"
| "js_mul PosInf NegInf = NegInf"
| "js_mul NegInf PosInf = NegInf"

fun js_quot :: "jsnum \<Rightarrow> jsnum \<Rightarrow> jsnum" where
  "js_quot (Fin a) (Fin b) =
     (if b \<noteq> 0 then fl (a / b)
      else if 0 < a then PosInf else if a < 0 then NegInf else NaN)"
| "js_quot NaN v = NaN"
| "js_quot v NaN = NaN"
| "js_quot (Fin a) PosInf = Fin 0"
| "js_quot (Fin a) NegInf = Fin 0"
| "js_quot PosInf (Fin b) = (if b < 0 then NegInf else PosInf)"
| "js_quot NegInf (Fin b) = (if b < 0 then PosInf else NegInf)"
| "js_quot PosInf PosInf = NaN"
| "js_quot PosInf NegInf = NaN"
| "js_quot NegInf PosInf = NaN"
| "js_quot NegInf NegInf = NaN"

text \<open>
  \<open>a || b\<close> on numbers (\<open>0\<close> and NaN are falsy), the comparisons \<open>a > c\<close> and
  \<open>a < c\<close> with a finite \<open>c\<close>, \<open>Math.round\<close> (halves upwards, exact), and
  \<open>Math.round(v * 100) / 100\<close>.
\<close>

fun js_or :: "jsnum \<Rightarrow> jsnum \<Rightarrow> jsnum" where
  "js_or (Fin a) v = (if a = 0 then v else Fin a)"
| "js_or NaN v = v"
| "js_or w v = w"

fun js_gt :: "jsnum \<Rightarrow> real \<Rightarrow> bool" where
  "js_gt (Fin x) c = (c < x)"
| "js_gt PosInf c = True"
| "js_gt v c = False"

fun js_lt :: "jsnum \<Rightarrow> real \<Rightarrow> bool" where
  "js_lt (Fin x) c = (x < c)"
| "js_lt NegInf c = True"
| "js_lt v c = False"

fun js_round :: "jsnum \<Rightarrow> jsnum" where
  "js_round (Fin x) = Fin (of_int \<lfloor>x + 1 / 2\<rfloor>)"
| "js_round v = v"

definition round2 :: "jsnum \<Rightarrow> jsnum" where
  "round2 v = js_quot (js_round (js_mul v (Fin 100))) (Fin 100)"

section \<open>Analytics: the performance trend\<close>

text \<open>
  \<open>calculatePerformanceTrends\<close>, on the sessions as the dashboard query returns them:
  most recent first. \<open>score_sum\<close> is the \<open>reduce\<close> over the scores, from \<open>0\<close>, left to
  right; the score a session holds is the double nearest the number that was sent. With
  two sessions or more \<open>recent\<close> is not empty. \<open>older\<close> may be empty: its
  average is then \<open>0 / 0\<close>, NaN, which is falsy like \<open>0\<close>, so that \<open>|| recentAvg\<close>
  replaces either by \<open>recentAvg\<close>. A zero divisor in the relative change arises only
  that way, with a zero dividend, which is why the sign of a zero cannot matter here.
\<close>

definition score_sum :: "session list \<Rightarrow> jsnum" where
  "score_sum ss = foldl (\<lambda>sum s. js_add sum (fl (score s))) (Fin 0) ss"

record trend_result =
  trend :: string
  change :: jsnum
  recentAverage :: "jsnum option"

definition calculatePerformanceTrends :: "session list \<Rightarrow> trend_result" where
  "calculatePerformanceTrends ss =
     (if length ss < 2 then \<lparr>trend = ''stable'', change = Fin 0, recentAverage = None\<rparr>
      else
        let recent = take 5 ss;
            older = take 5 (drop 5 ss);
            recentAvg = js_quot (score_sum recent) (Fin (real (length recent)));
            olderAvg = js_or (js_quot (score_sum older) (Fin (real (length older)))) recentAvg;
            chg = js_mul (js_quot (js_sub recentAvg olderAvg) olderAvg) (Fin 100)
        in \<lparr>trend = (if js_gt chg 5 then ''improving''
                      else if js_lt chg (- 5) then ''declining'' else ''stable''),
            change = round2 chg,
            recentAverage = Some (round2 recentAvg)\<rparr>)"

text \<open>
  The quantities the trend is described with. In exact arithmetic: the mean score of a
  list of sessions and the relative change, in percent, from an older mean to a recent
  one. As the program computes them, in doubles: the mean, the relative change and the
  label given to a change.
\<close>

definition mean_score :: "session list \<Rightarrow> real" where
  "mean_score ss = sum_list (map score ss) / real (length ss)"

definition relative_change :: "real \<Rightarrow> real \<Rightarrow> real" where
  "relative_change recent older = (recent - older) / older * 100"

definition double_mean :: "session list \<Rightarrow> jsnum" where
  "double_mean ss = js_quot (score_sum ss) (Fin (real (length ss)))"

definition double_change :: "jsnum \<Rightarrow> jsnum \<Rightarrow> jsnum" where
  "double_change recent older = js_mul (js_quot (js_sub recent older) older) (Fin 100)"

definition trend_label :: "jsnum \<Rightarrow> string" where
  "trend_label c =
     (if js_gt c 5 then ''improving'' else if js_lt c (- 5) then ''declining'' else ''stable'')"

text \<open>
  Two histories of ten sessions: one whose exact relative change is 5 percent, and one
  that improves from 60 to 90.
\<close>

definition boundary_history :: "session list" where
  "boundary_history = map (session_at 1 0) [5, 4, 4, 4, 4, 4, 4, 4, 4, 4]"

definition trend_history :: "session list" where
  "trend_history = map (session_at 1 0) [90, 90, 90, 90, 90, 60, 60, 60, 60, 60]"

section \<open>Refresh tokens\<close>

text \<open>
  The persisted rotation record (models/RefreshToken.js) and a refresh JWT as
  \<open>jwt.verify\<close> sees it: whether its signature verifies under the refresh secret, its
  payload and its expiry. Times are in milliseconds.
\<close>

record refresh_token_doc =
  tokenUserId :: nat
  jti :: string
  expiresAt :: int
  isBlacklisted :: bool

record refresh_jwt =
  signatureValid :: bool
  jwtUserId :: nat
  jwtJti :: string
  jwtExp :: int

record access_jwt =
  accessUserId :: nat
  accessExp :: int

record auth_state =
  refreshTokens :: "refresh_token_doc list"
  accounts :: "nat list"

definition seven_days :: int where
  "seven_days = 7 * 24 * 60 * 60 * 1000"

definition jwt_verify :: "refresh_jwt \<Rightarrow> int \<Rightarrow> bool" where
  "jwt_verify token now \<longleftrightarrow> signatureValid token \<and> now < jwtExp token"

definition generateAccessToken :: "nat \<Rightarrow> int \<Rightarrow> access_jwt" where
  "generateAccessToken uid now = \<lparr>accessUserId = uid, accessExp = now + 15 * 60 * 1000\<rparr>"

text \<open>
  \<open>generateRefreshToken\<close>; \<open>newJti\<close> is the value \<open>uuidv4()\<close> returns. The schema
  declares \<open>jti\<close> unique, so saving a record whose \<open>jti\<close> is already stored throws.
\<close>

definition generateRefreshToken ::
    "auth_state \<Rightarrow> nat \<Rightarrow> string \<Rightarrow> int \<Rightarrow> (refresh_jwt \<times> auth_state) option" where
  "generateRefreshToken st uid newJti now =
     (if newJti \<in> set (map jti (refreshTokens st)) then None
      else Some
        (\<lparr>signatureValid = True, jwtUserId = uid, jwtJti = newJti, jwtExp = now + seven_days\<rparr>,
         st\<lparr>refreshTokens := refreshTokens st @
               [\<lparr>tokenUserId = uid, jti = newJti, expiresAt = now + seven_days,
                 isBlacklisted = False\<rparr>]\<rparr>))"

text \<open>\<open>verifyRefreshToken\<close>: every failure inside becomes the one error it rethrows.\<close>

definition verifyRefreshToken ::
    "auth_state \<Rightarrow> refresh_jwt \<Rightarrow> int \<Rightarrow> (refresh_jwt \<times> refresh_token_doc) option" where
  "verifyRefreshToken st token now =
     (if \<not> jwt_verify token now then None
      else case find (\<lambda>d. jti d = jwtJti token \<and> tokenUserId d = jwtUserId token
                          \<and> \<not> isBlacklisted d) (refreshTokens st) of
             None \<Rightarrow> None
           | Some refreshTokenDoc \<Rightarrow> Some (token, refreshTokenDoc))"

text \<open>\<open>updateOne\<close> changes the first matching record, \<open>updateMany\<close> all of them.\<close>

fun update_one :: "('a \<Rightarrow> bool) \<Rightarrow> ('a \<Rightarrow> 'a) \<Rightarrow> 'a list \<Rightarrow> 'a list" where
  "update_one P f [] = []"
| "update_one P f (x # xs) = (if P x then f x # xs else x # update_one P f xs)"

definition blacklistRefreshToken :: "auth_state \<Rightarrow> string \<Rightarrow> auth_state" where
  "blacklistRefreshToken st j =
     st\<lparr>refreshTokens :=
          update_one (\<lambda>d. jti d = j) (\<lambda>d. d\<lparr>isBlacklisted := True\<rparr>) (refreshTokens st)\<rparr>"

definition revokeAllUserTokens :: "auth_state \<Rightarrow> nat \<Rightarrow> auth_state" where
  "revokeAllUserTokens st uid =
     st\<lparr>refreshTokens :=
          map (\<lambda>d. if tokenUserId d = uid \<and> \<not> isBlacklisted d
                    then d\<lparr>isBlacklisted := True\<rparr> else d) (refreshTokens st)\<rparr>"

text \<open>
  \<open>refreshTokenMiddleware\<close>. Both answers other than \<open>next()\<close> carry status 401. An
  exception anywhere after the cookie check, also one thrown by saving the new record
  once the presented one is blacklisted, ends in the \<open>catch\<close> block.
\<close>

datatype refresh_response = Unauthorized string | Next access_jwt refresh_jwt

definition refreshTokenMiddleware ::
    "auth_state \<Rightarrow> refresh_jwt option \<Rightarrow> string \<Rightarrow> int \<Rightarrow> refresh_response \<times> auth_state" where
  "refreshTokenMiddleware st cookie newJti now =
     (case cookie of
        None \<Rightarrow> (Unauthorized ''Refresh token not provided.'', st)
      | Some refreshToken \<Rightarrow>
          (case verifyRefreshToken st refreshToken now of
             None \<Rightarrow> (Unauthorized ''Invalid refresh token.'', st)
           | Some (decoded, refreshTokenDoc) \<Rightarrow>
               if jwtUserId decoded \<notin> set (accounts st)
               then (Unauthorized ''User not found.'', st)
               else
                 let st1 = blacklistRefreshToken st (jwtJti decoded);
                     newAccessToken = generateAccessToken (jwtUserId decoded) now
                 in (case generateRefreshToken st1 (jwtUserId decoded) newJti now of
                       None \<Rightarrow> (Unauthorized ''Invalid refresh token.'', st1)
                     | Some (newRefreshTokenData, st2) \<Rightarrow>
                         (Next newAccessToken newRefreshTokenData, st2))))"

text \<open>
  What can happen to the token store between two refresh requests: a login or OAuth
  sign-in issues a token, a refresh rotates one, a logout revokes the tokens of the
  authenticated user, if there is one. Removal of expired records is left to the store.
\<close>

datatype auth_event =
    Login nat string int
  | Refresh "refresh_jwt option" string int
  | Logout "nat option"

fun auth_step :: "auth_state \<Rightarrow> auth_event \<Rightarrow> auth_state" where
  "auth_step st (Login uid newJti now) =
     (case generateRefreshToken st uid newJti now of
        None \<Rightarrow> st
      | Some (token, st') \<Rightarrow> st')"
| "auth_step st (Refresh cookie newJti now) = snd (refreshTokenMiddleware st cookie newJti now)"
| "auth_step st (Logout None) = st"
| "auth_step st (Logout (Some uid)) = revokeAllUserTokens st uid"

text \<open>
  A jti is spent in a store when a record carries it and every record carrying it is
  blacklisted.
\<close>

definition spent :: "string \<Rightarrow> auth_state \<Rightarrow> bool" where
  "spent j st \<longleftrightarrow>
     j \<in> set (map jti (refreshTokens st))
     \<and> (\<forall>d\<in>set (refreshTokens st). jti d = j \<longrightarrow> isBlacklisted d)"

text \<open>A store with one account and one issued token, that token, and the rotation of it.\<close>

definition issued_token :: refresh_jwt where
  "issued_token = \<lparr>signatureValid = True, jwtUserId = 1, jwtJti = ''jti-a'', jwtExp = seven_days\<rparr>"

definition auth_fixture :: auth_state where
  "auth_fixture =
     \<lparr>refreshTokens = [\<lparr>tokenUserId = 1, jti = ''jti-a'', expiresAt = seven_days,
                        isBlacklisted = False\<rparr>],
      accounts = [1]\<rparr>"

definition rotated_token :: refresh_jwt where
  "rotated_token =
     \<lparr>signatureValid = True, jwtUserId = 1, jwtJti = ''jti-b'', jwtExp = 10 + seven_days\<rparr>"

definition rotated_state :: auth_state where
  "rotated_state =
     \<lparr>refreshTokens = [\<lparr>tokenUserId = 1, jti = ''jti-a'', expiresAt = seven_days,
                        isBlacklisted = True\<rparr>,
                       \<lparr>tokenUserId = 1, jti = ''jti-b'', expiresAt = 10 + seven_days,
                        isBlacklisted = False\<rparr>],
      accounts = [1]\<rparr>"



section \<open>Properties of the session recorder\<close>

subsection \<open>Frame and effect lemmas for the user methods\<close>

lemma addXP_xp: "xp (fst (addXP u p)) = xp u + p"
  by (simp add: addXP_def Let_def)

lemma addXP_level: "level (fst (addXP u p)) = max (level u) ((xp u + p) div 1000 + 1)"
  by (simp add: addXP_def Let_def)

lemma addXP_frame:
  "stats (fst (addXP u p)) = stats u"
  "badges (fst (addXP u p)) = badges u"
  "streak (fst (addXP u p)) = streak u"
  "lastActiveDate (fst (addXP u p)) = lastActiveDate u"
  by (simp_all add: addXP_def Let_def)

lemma awardBadge_frame:
  "stats (fst (awardBadge u b)) = stats u"
  "streak (fst (awardBadge u b)) = streak u"
  "lastActiveDate (fst (awardBadge u b)) = lastActiveDate u"
  "xp (fst (awardBadge u b)) = xp u"
  "level (fst (awardBadge u b)) = level u"
  by (simp_all add: awardBadge_def split: option.splits)

lemma award_loop_frame:
  "stats (award_loop u bs) = stats u \<and> streak (award_loop u bs) = streak u
   \<and> lastActiveDate (award_loop u bs) = lastActiveDate u"
proof (induction bs arbitrary: u)
  case Nil
  show ?case by simp
next
  case (Cons b bs)
  obtain u1 aw where a: "awardBadge u b = (u1, aw)" by (cases "awardBadge u b")
  have f: "stats u1 = stats u" "streak u1 = streak u" "lastActiveDate u1 = lastActiveDate u"
    using awardBadge_frame(1-3) [of u b] a by simp_all
  show ?case
    using Cons.IH [of "if aw then fst (addXP u1 100) else u1"] a f
    by (simp add: addXP_frame)
qed

lemma update_user_stats_frame:
  "streak (fst (update_user_stats u s)) = streak u"
  "lastActiveDate (fst (update_user_stats u s)) = lastActiveDate u"
  "bestStreak (stats (fst (update_user_stats u s))) = bestStreak (stats u)"
  by (simp_all add: update_user_stats_def Let_def split_beta checkAndAwardBadges_def
      award_loop_frame addXP_frame)


subsection \<open>The handler seen from one user's document\<close>

lemma post_session_user:
  "map_of (users (snd (post_session d uid now body))) v =
     (if v = uid \<and> validation_errors body = []
      then map_option
             (\<lambda>u. fst (update_user_stats u
                          (session_body.extend body \<lparr>userId = uid, createdAt = now\<rparr>)))
             (map_of (users d) v)
      else map_of (users d) v)"
  by (simp add: post_session_def Let_def update_conv' split: option.splits prod.splits)

lemma submit_all_invariant:
  assumes "map_of (users d) uid = Some u" and "P u"
    and step: "\<And>u body now. P u \<Longrightarrow> validation_errors body = [] \<Longrightarrow>
       P (fst (update_user_stats u
                 (session_body.extend body \<lparr>userId = uid, createdAt = now\<rparr>)))"
  shows "\<exists>u'. map_of (users (submit_all d reqs)) uid = Some u' \<and> P u'"
  using assms(1,2)
proof (induction reqs arbitrary: d u)
  case Nil
  then show ?case by simp
next
  case (Cons r rs)
  obtain v now body where r: "r = (v, now, body)" by (cases r)
  let ?d = "snd (post_session d v now body)"
  have "\<exists>u1. map_of (users ?d) uid = Some u1 \<and> P u1"
    using Cons.prems step by (auto simp add: post_session_user)
  then obtain u1 where "map_of (users ?d) uid = Some u1" "P u1" by blast
  from Cons.IH [OF this] show ?case by (simp add: r)
qed

subsection \<open>The fixtures evaluated\<close>

lemma scenario_body_valid: "validation_errors scenario_body = []"
  by (simp add: validation_errors_def scenario_body_def game_types_def game_domains_def
      difficulties_def)

lemma scenario_update:
  "update_user_stats (new_user t0)
     (session_body.extend scenario_body \<lparr>userId = uid, createdAt = now\<rparr>) =
   (scenario_user t0, 150, False, None)"
  by (simp add: update_user_stats_def new_user_def scenario_body_def scenario_user_def
      session_body.extend_def addXP_def checkAndAwardBadges_def candidate_badges_def
      awardBadge_def Let_def)

lemma validation_errors_Nil:
  "validation_errors b = [] \<longleftrightarrow>
     gameType b \<in> set game_types \<and> gameDomain b \<in> set game_domains \<and>
     difficulty b \<in> set difficulties \<and> 1 \<le> duration b \<and>
     0 \<le> score b \<and> score b \<le> 100 \<and> 0 \<le> accuracy b \<and> accuracy b \<le> 100"
  by (simp add: validation_errors_def)

lemma extend_fields:
  "score (session_body.extend b e) = score b"
  "duration (session_body.extend b e) = duration b"
  "gameType (session_body.extend b e) = gameType b"
  by (simp_all add: session_body.extend_def)

subsection \<open>Level and XP\<close>

lemma addXP_level_ok:
  assumes "level u = xp u div 1000 + 1" and "0 \<le> p"
  shows "level (fst (addXP u p)) = xp (fst (addXP u p)) div 1000 + 1"
proof -
  have "xp u div 1000 \<le> (xp u + p) div 1000"
    using assms(2) by (intro zdiv_mono1) simp_all
  then show ?thesis
    using assms(1) by (simp add: addXP_xp addXP_level)
qed

lemma award_loop_level_ok:
  "level u = xp u div 1000 + 1 \<Longrightarrow>
   level (award_loop u bs) = xp (award_loop u bs) div 1000 + 1"
proof (induction bs arbitrary: u)
  case Nil
  then show ?case by simp
next
  case (Cons b bs)
  obtain u1 aw where a: "awardBadge u b = (u1, aw)" by (cases "awardBadge u b")
  have u1: "level u1 = xp u1 div 1000 + 1"
    using awardBadge_frame(4,5) [of u b] a Cons.prems by simp
  have "level (fst (addXP u1 100)) = xp (fst (addXP u1 100)) div 1000 + 1"
    using u1 by (rule addXP_level_ok) simp
  with u1 have "level (if aw then fst (addXP u1 100) else u1)
      = xp (if aw then fst (addXP u1 100) else u1) div 1000 + 1"
    by simp
  from Cons.IH [OF this] show ?case by (simp add: a)
qed

lemma update_user_stats_level_ok:
  assumes "level u = xp u div 1000 + 1" and "0 \<le> score s"
  shows "level (fst (update_user_stats u s)) = xp (fst (update_user_stats u s)) div 1000 + 1"
proof -
  have "0 \<le> \<lfloor>score s / 10\<rfloor> * 10 + 50"
    using assms(2) by simp
  then show ?thesis
    using assms(1)
    by (simp add: update_user_stats_def Let_def split_beta checkAndAwardBadges_def
        award_loop_level_ok addXP_level_ok)
qed

lemma foldl_addXP_level_ok:
  "level u = xp u div 1000 + 1 \<Longrightarrow> \<forall>p\<in>set ps. 0 \<le> p \<Longrightarrow>
   level (foldl (\<lambda>u p. fst (addXP u p)) u ps)
     = xp (foldl (\<lambda>u p. fst (addXP u p)) u ps) div 1000 + 1"
  by (induction ps arbitrary: u) (simp_all add: addXP_level_ok)

text \<open>
  Claim C2. Starting from level 1 and 0 XP, after every XP-awarding operation the level
  equals \<open>floor(xp / 1000) + 1\<close>: after any run of \<open>addXP\<close> calls with non-negative
  points (the session grant is at least 50, the badge bonus is 100), and so after any run
  of session submissions, although \<open>addXP\<close> only ever raises the stored level.
\<close>

theorem level_tracks_xp:
  assumes "level u0 = 1" and "xp u0 = 0"
  shows "(\<forall>ps. (\<forall>p\<in>set ps. 0 \<le> p) \<longrightarrow>
            level (foldl (\<lambda>u p. fst (addXP u p)) u0 ps)
              = xp (foldl (\<lambda>u p. fst (addXP u p)) u0 ps) div 1000 + 1)
       \<and> (\<forall>d uid reqs. map_of (users d) uid = Some u0 \<longrightarrow>
            (\<exists>u. map_of (users (submit_all d reqs)) uid = Some u
                 \<and> level u = xp u div 1000 + 1))"
proof (intro conjI allI impI)
  fix ps :: "int list"
  assume "\<forall>p\<in>set ps. 0 \<le> p"
  then show "level (foldl (\<lambda>u p. fst (addXP u p)) u0 ps)
              = xp (foldl (\<lambda>u p. fst (addXP u p)) u0 ps) div 1000 + 1"
    using assms by (intro foldl_addXP_level_ok) simp_all
next
  fix d :: db and uid :: nat and reqs :: "(nat \<times> int \<times> session_body) list"
  assume "map_of (users d) uid = Some u0"
  then show "\<exists>u. map_of (users (submit_all d reqs)) uid = Some u
                 \<and> level u = xp u div 1000 + 1"
  proof (rule submit_all_invariant [where P = "\<lambda>u. level u = xp u div 1000 + 1"])
    show "level u0 = xp u0 div 1000 + 1" using assms by simp
  next
    fix u :: user and body :: session_body and now :: int
    assume "level u = xp u div 1000 + 1" and "validation_errors body = []"
    then show "level (fst (update_user_stats u
                 (session_body.extend body \<lparr>userId = uid, createdAt = now\<rparr>)))
      = xp (fst (update_user_stats u
                 (session_body.extend body \<lparr>userId = uid, createdAt = now\<rparr>))) div 1000 + 1"
      by (intro update_user_stats_level_ok) (simp_all add: validation_errors_Nil extend_fields)
  qed
qed

theorem level_tracks_xp_witness:
  "level (new_user 0) = 1 \<and> xp (new_user 0) = 0
   \<and> level (foldl (\<lambda>u p. fst (addXP u p)) (new_user 0) [150, 100, 900]) = 2
   \<and> xp (foldl (\<lambda>u p. fst (addXP u p)) (new_user 0) [150, 100, 900]) = 1150
   \<and> map_of (users scenario_db) 1 = Some (new_user 0)
   \<and> (\<exists>u. map_of (users (submit_all scenario_db [(1, 5, scenario_body)])) 1 = Some u
         \<and> level u = xp u div 1000 + 1)"
proof -
  have h1: "level (new_user 0) = 1" and h2: "xp (new_user 0) = 0"
    by (simp_all add: new_user_def)
  have h3: "\<forall>p\<in>set [150, 100, 900]. (0::int) \<le> p" by simp
  have h4: "map_of (users scenario_db) 1 = Some (new_user 0)"
    by (simp add: scenario_db_def)
  have x: "xp (foldl (\<lambda>u p. fst (addXP u p)) (new_user 0) [150, 100, 900]) = 1150"
    by (simp add: addXP_xp new_user_def)
  note t = level_tracks_xp [OF h1 h2]
  from t h3 have "level (foldl (\<lambda>u p. fst (addXP u p)) (new_user 0) [150, 100, 900])
      = xp (foldl (\<lambda>u p. fst (addXP u p)) (new_user 0) [150, 100, 900]) div 1000 + 1"
    by blast
  then have l: "level (foldl (\<lambda>u p. fst (addXP u p)) (new_user 0) [150, 100, 900]) = 2"
    by (simp only: x)
  from t h4 have "\<exists>u. map_of (users (submit_all scenario_db [(1, 5, scenario_body)])) 1 = Some u
         \<and> level u = xp u div 1000 + 1"
    by blast
  with h1 h2 h4 x l show ?thesis by blast
qed


subsection \<open>Running average\<close>

lemma update_user_stats_stats:
  "totalSessions (stats (fst (update_user_stats u s))) = totalSessions (stats u) + 1"
  "averageScore (stats (fst (update_user_stats u s))) =
     (averageScore (stats u) * of_int (totalSessions (stats u) + 1 - 1) + score s)
       / of_int (totalSessions (stats u) + 1)"
  by (simp_all add: update_user_stats_def Let_def split_beta checkAndAwardBadges_def
      award_loop_frame addXP_frame)

lemma running_total:
  assumes "map_of (users d) uid = Some u" and "0 \<le> totalSessions (stats u)"
  shows "\<exists>u'. map_of (users (submit_all d reqs)) uid = Some u'
     \<and> totalSessions (stats u') = totalSessions (stats u) + int (length (accepted_scores uid reqs))
     \<and> averageScore (stats u') * of_int (totalSessions (stats u'))
         = averageScore (stats u) * of_int (totalSessions (stats u))
           + sum_list (accepted_scores uid reqs)"
  using assms
proof (induction reqs arbitrary: d u)
  case Nil
  then show ?case by (simp add: accepted_scores_def)
next
  case (Cons r rs)
  obtain v now body where r: "r = (v, now, body)" by (cases r)
  let ?d = "snd (post_session d v now body)"
  let ?s = "session_body.extend body \<lparr>userId = v, createdAt = now\<rparr>"
  show ?case
  proof (cases "v = uid \<and> validation_errors body = []")
    case True
    let ?u1 = "fst (update_user_stats u ?s)"
    have m: "map_of (users ?d) uid = Some ?u1"
      using True Cons.prems(1) by (simp add: post_session_user)
    have n: "totalSessions (stats ?u1) = totalSessions (stats u) + 1"
      by (rule update_user_stats_stats)
    have pos: "0 \<le> totalSessions (stats ?u1)" using n Cons.prems(2) by simp
    have nz: "real_of_int (totalSessions (stats u) + 1) \<noteq> 0"
      using Cons.prems(2) by simp
    have a: "averageScore (stats ?u1) * of_int (totalSessions (stats ?u1))
        = averageScore (stats u) * of_int (totalSessions (stats u)) + score body"
      unfolding n update_user_stats_stats(2) using nz
      by (simp add: extend_fields)
    have acc: "accepted_scores uid (r # rs) = score body # accepted_scores uid rs"
      using True by (simp add: accepted_scores_def r)
    from Cons.IH [OF m pos] obtain u' where
      u1: "map_of (users (submit_all ?d rs)) uid = Some u'" and
      u2: "totalSessions (stats u') = totalSessions (stats ?u1) + int (length (accepted_scores uid rs))" and
      u3: "averageScore (stats u') * of_int (totalSessions (stats u'))
         = averageScore (stats ?u1) * of_int (totalSessions (stats ?u1))
           + sum_list (accepted_scores uid rs)"
      by blast
    have c1: "map_of (users (submit_all d (r # rs))) uid = Some u'"
      using u1 by (simp add: r)
    have c2: "totalSessions (stats u')
        = totalSessions (stats u) + int (length (accepted_scores uid (r # rs)))"
      using u2 n by (simp add: acc)
    have c3: "averageScore (stats u') * of_int (totalSessions (stats u'))
        = averageScore (stats u) * of_int (totalSessions (stats u))
           + sum_list (accepted_scores uid (r # rs))"
      using u3 a by (simp add: acc)
    from c1 c2 c3 show ?thesis by blast
  next
    case False
    have m: "map_of (users ?d) uid = Some u"
      using False Cons.prems(1) by (auto simp add: post_session_user)
    have acc: "accepted_scores uid (r # rs) = accepted_scores uid rs"
      using False by (auto simp add: accepted_scores_def r)
    from Cons.IH [OF m Cons.prems(2)] show ?thesis
      unfolding acc by (simp add: r)
  qed
qed

text \<open>
  For bodies whose score is a JSON number, as \<open>session_body\<close> types it, the stored
  average of a user with no recorded session is the arithmetic mean of the scores of that
  user's accepted submissions, each one maintaining it by
  \<open>newAvg = (oldAvg * (n - 1) + newScore) / n\<close>. Scores are real numbers here, so the
  equality is exact.
\<close>

lemma numeric_average_is_mean:
  assumes "map_of (users d) uid = Some u0" and "totalSessions (stats u0) = 0"
    and "accepted_scores uid reqs \<noteq> []"
  shows "(\<forall>u s. averageScore (stats (fst (update_user_stats u s)))
             = (averageScore (stats u)
                  * of_int (totalSessions (stats (fst (update_user_stats u s))) - 1) + score s)
               / of_int (totalSessions (stats (fst (update_user_stats u s)))))
       \<and> (\<exists>u. map_of (users (submit_all d reqs)) uid = Some u
             \<and> averageScore (stats u)
                 = sum_list (accepted_scores uid reqs) / real (length (accepted_scores uid reqs)))"
proof (intro conjI allI)
  fix u :: user and s :: session
  show "averageScore (stats (fst (update_user_stats u s)))
             = (averageScore (stats u)
                  * of_int (totalSessions (stats (fst (update_user_stats u s))) - 1) + score s)
               / of_int (totalSessions (stats (fst (update_user_stats u s))))"
    by (simp only: update_user_stats_stats)
next
  from running_total [OF assms(1), of reqs] assms(2) obtain u where
    u: "map_of (users (submit_all d reqs)) uid = Some u"
       "totalSessions (stats u) = int (length (accepted_scores uid reqs))"
       "averageScore (stats u) * of_int (totalSessions (stats u))
          = sum_list (accepted_scores uid reqs)"
    by auto
  have "real (length (accepted_scores uid reqs)) \<noteq> 0" using assms(3) by simp
  then have "averageScore (stats u)
      = sum_list (accepted_scores uid reqs) / real (length (accepted_scores uid reqs))"
    using u(2,3) by (simp add: nonzero_eq_divide_eq)
  with u(1) show "\<exists>u. map_of (users (submit_all d reqs)) uid = Some u
             \<and> averageScore (stats u)
                 = sum_list (accepted_scores uid reqs) / real (length (accepted_scores uid reqs))"
    by blast
qed

subsection \<open>A score sent as a string\<close>

lemma raw_average_number:
  "raw_average oldAvg n (JNum x) = Some ((oldAvg * of_int (n - 1) + x) / of_int n)"
  by (simp add: raw_average_def)

lemma raw_average_agrees:
  "raw_average (averageScore (stats u)) (totalSessions (stats u) + 1) (JNum (score s))
     = Some (averageScore (stats (fst (update_user_stats u s))))"
  by (simp add: raw_average_def update_user_stats_stats)

lemma decimal_100: "decimal 100 = ''100''"
  by (simp add: decimal.simps digit_char_def)

lemma text_10060: "text_number ''10060'' = Some 10060"
  by (simp add: text_number_def digit_of_def)

lemma text_60: "text_number ''60'' = Some 60"
  by (simp add: text_number_def digit_of_def)

text \<open>
  Claim C1, at an accepted submission that breaks it. A user whose only session scored 100
  submits a second one whose score is the JSON string \<open>"60"\<close>, which the validator
  accepts: line 47 joins the text of \<open>100 * (2 - 1)\<close> with it, and line 48 stores \<open>10060 / 2 = 5030\<close>. Sent as a number
  the same score gives 80, the mean of 100 and 60.
\<close>

theorem string_score_breaks_average:
  "averageScore (stats (scenario_user 0)) = 100
   \<and> totalSessions (stats (scenario_user 0)) = 1
   \<and> score_accepted (JStr ''60'') = Some True
   \<and> raw_average (averageScore (stats (scenario_user 0)))
         (totalSessions (stats (scenario_user 0)) + 1) (JStr ''60'') = Some 5030
   \<and> raw_average (averageScore (stats (scenario_user 0)))
         (totalSessions (stats (scenario_user 0)) + 1) (JNum 60) = Some 80"
  by (simp add: scenario_user_def raw_average_def text_of_number_def decimal_100 text_10060
      score_accepted_def text_60)

text \<open>The play time meets the same addition: 60 seconds and \<open>"60"\<close> make 6060.\<close>

lemma string_duration_play_time: "raw_play_time 60 (JStr ''60'') = Some 6060"
  by (simp add: raw_play_time_def text_of_number_def decimal.simps digit_char_def text_number_def
      digit_of_def)

subsection \<open>Badges\<close>

lemma awardBadge_present:
  assumes "b \<in> badge_id ` set (badges u)"
  shows "badge_id bd = b \<Longrightarrow> awardBadge u bd = (u, False)"
    and "filter (\<lambda>x. badge_id x = b) (badges (fst (awardBadge u bd)))
           = filter (\<lambda>x. badge_id x = b) (badges u)"
proof -
  show "badge_id bd = b \<Longrightarrow> awardBadge u bd = (u, False)"
    using assms by (auto simp add: awardBadge_def find_None_iff split: option.splits)
  show "filter (\<lambda>x. badge_id x = b) (badges (fst (awardBadge u bd)))
           = filter (\<lambda>x. badge_id x = b) (badges u)"
    using assms by (auto simp add: awardBadge_def find_None_iff split: option.splits)
qed

lemma award_loop_keeps:
  "b \<in> badge_id ` set (badges u) \<Longrightarrow>
   filter (\<lambda>x. badge_id x = b) (badges (award_loop u bs))
     = filter (\<lambda>x. badge_id x = b) (badges u)"
proof (induction bs arbitrary: u)
  case Nil
  then show ?case by simp
next
  case (Cons c bs)
  obtain u1 aw where a: "awardBadge u c = (u1, aw)" by (cases "awardBadge u c")
  let ?u2 = "if aw then fst (addXP u1 100) else u1"
  have f: "filter (\<lambda>x. badge_id x = b) (badges u1) = filter (\<lambda>x. badge_id x = b) (badges u)"
    using awardBadge_present(2) [OF Cons.prems, of c] a by simp
  have b2: "badges ?u2 = badges u1" by (simp add: addXP_frame)
  have "b \<in> badge_id ` set (filter (\<lambda>x. badge_id x = b) (badges u))"
    using Cons.prems by auto
  then have "b \<in> badge_id ` set (filter (\<lambda>x. badge_id x = b) (badges ?u2))"
    by (simp only: b2 f)
  then have "b \<in> badge_id ` set (badges ?u2)" by auto
  from Cons.IH [OF this] show ?case by (simp add: a b2 f)
qed

lemma update_user_stats_keeps:
  assumes "b \<in> badge_id ` set (badges u)"
  shows "filter (\<lambda>x. badge_id x = b) (badges (fst (update_user_stats u s)))
     = filter (\<lambda>x. badge_id x = b) (badges u)"
  using assms
  by (simp add: update_user_stats_def Let_def split_beta checkAndAwardBadges_def
      award_loop_keeps addXP_frame)

text \<open>
  Claim C5. Once a badge with id \<open>b\<close> is among a user's badges, \<open>awardBadge\<close> answers
  false and appends nothing for any badge of that id, and no run of session submissions
  changes the badges of id \<open>b\<close> the user holds: a second one is never added.
\<close>

theorem badge_never_duplicated:
  assumes "map_of (users d) uid = Some u0" and "b \<in> badge_id ` set (badges u0)"
  shows "(\<forall>bd. badge_id bd = b \<longrightarrow> awardBadge u0 bd = (u0, False))
       \<and> (\<exists>u. map_of (users (submit_all d reqs)) uid = Some u
             \<and> filter (\<lambda>x. badge_id x = b) (badges u)
                 = filter (\<lambda>x. badge_id x = b) (badges u0))"
proof (intro conjI allI impI)
  fix bd :: badge
  assume "badge_id bd = b"
  then show "awardBadge u0 bd = (u0, False)"
    using assms(2) by (rule awardBadge_present(1) [rotated])
next
  let ?P = "\<lambda>u. filter (\<lambda>x. badge_id x = b) (badges u)
                 = filter (\<lambda>x. badge_id x = b) (badges u0)"
  show "\<exists>u. map_of (users (submit_all d reqs)) uid = Some u \<and> ?P u"
    using assms(1)
  proof (rule submit_all_invariant [where P = ?P])
    show "?P u0" by simp
  next
    fix u :: user and body :: session_body and now :: int
    assume p: "?P u"
    have "b \<in> badge_id ` set (filter (\<lambda>x. badge_id x = b) (badges u0))"
      using assms(2) by auto
    then have "b \<in> badge_id ` set (filter (\<lambda>x. badge_id x = b) (badges u))"
      by (simp only: p)
    then have "b \<in> badge_id ` set (badges u)" by auto
    then show "?P (fst (update_user_stats u
                 (session_body.extend body \<lparr>userId = uid, createdAt = now\<rparr>)))"
      using p by (simp add: update_user_stats_keeps)
  qed
qed

theorem badge_never_duplicated_witness:
  "map_of (users (snd (post_session scenario_db 1 5 scenario_body))) 1 = Some (scenario_user 0)
   \<and> ''perfect-score'' \<in> badge_id ` set (badges (scenario_user 0))
   \<and> awardBadge (scenario_user 0)
         \<lparr>badge_id = ''perfect-score'', badge_name = ''Perfect Performance'',
          badge_description = ''Achieved a perfect score in a training session''\<rparr>
       = (scenario_user 0, False)
   \<and> (\<exists>u. map_of (users (submit_all (snd (post_session scenario_db 1 5 scenario_body))
                 [(1, 9, scenario_body)])) 1 = Some u
         \<and> map badge_id (filter (\<lambda>x. badge_id x = ''perfect-score'') (badges u))
             = [''perfect-score''])"
proof -
  let ?d = "snd (post_session scenario_db 1 5 scenario_body)"
  have h1: "map_of (users ?d) 1 = Some (scenario_user 0)"
    by (simp add: post_session_def Let_def scenario_body_valid scenario_update scenario_db_def)
  have h2: "''perfect-score'' \<in> badge_id ` set (badges (scenario_user 0))"
    by (simp add: scenario_user_def)
  have f: "map badge_id (filter (\<lambda>x. badge_id x = ''perfect-score'') (badges (scenario_user 0)))
      = [''perfect-score'']"
    by (simp add: scenario_user_def)
  note t = badge_never_duplicated [OF h1 h2, of "[(1, 9, scenario_body)]"]
  from t have a: "awardBadge (scenario_user 0)
         \<lparr>badge_id = ''perfect-score'', badge_name = ''Perfect Performance'',
          badge_description = ''Achieved a perfect score in a training session''\<rparr>
       = (scenario_user 0, False)"
    by simp
  from t obtain u where
    "map_of (users (submit_all ?d [(1, 9, scenario_body)])) 1 = Some u"
    "filter (\<lambda>x. badge_id x = ''perfect-score'') (badges u)
       = filter (\<lambda>x. badge_id x = ''perfect-score'') (badges (scenario_user 0))"
    by blast
  with f have "\<exists>u. map_of (users (submit_all ?d [(1, 9, scenario_body)])) 1 = Some u
         \<and> map badge_id (filter (\<lambda>x. badge_id x = ''perfect-score'') (badges u))
             = [''perfect-score'']"
    by auto
  with h1 h2 a show ?thesis by blast
qed

subsection \<open>The first-session scenario\<close>

text \<open>
  Claim C3, as amended. A freshly registered user who submits score 100, accuracy 100,
  duration 60 for \<open>n-back\<close> / \<open>working_memory\<close> / \<open>medium\<close> ends with one session,
  average 100, level 1, the badges \<open>first-session\<close> and \<open>perfect-score\<close>, and 350 XP:
  the 150 of the session (reported as \<open>xpGained\<close>) plus the bonus of 100 for each of the
  two badges.
\<close>

theorem first_perfect_session:
  assumes "map_of (users d) uid = Some (new_user t0)"
  shows "fst (post_session d uid now scenario_body) = Created 150 False None 350 1
       \<and> (\<exists>u. map_of (users (snd (post_session d uid now scenario_body))) uid = Some u
             \<and> totalSessions (stats u) = 1 \<and> xp u = 350 \<and> level u = 1
             \<and> map badge_id (badges u) = [''first-session'', ''perfect-score'']
             \<and> averageScore (stats u) = 100)"
  using assms
  by (simp add: post_session_def Let_def scenario_body_valid scenario_update update_conv'
      scenario_user_def)

theorem first_perfect_session_witness:
  "map_of (users scenario_db) 1 = Some (new_user 0)
   \<and> fst (post_session scenario_db 1 5 scenario_body) = Created 150 False None 350 1
   \<and> (\<exists>u. map_of (users (snd (post_session scenario_db 1 5 scenario_body))) 1 = Some u
         \<and> totalSessions (stats u) = 1 \<and> xp u = 350 \<and> level u = 1
         \<and> map badge_id (badges u) = [''first-session'', ''perfect-score'']
         \<and> averageScore (stats u) = 100)"
proof -
  have h: "map_of (users scenario_db) 1 = Some (new_user 0)"
    by (simp add: scenario_db_def)
  from h first_perfect_session [OF h, of 5] show ?thesis by blast
qed

text \<open>The XP after that request is not the 150 of the session grant alone.\<close>

theorem first_perfect_session_xp_counterexample:
  "map_option xp (map_of (users (snd (post_session scenario_db 1 5 scenario_body))) 1) \<noteq> Some 150"
  by (simp add: post_session_def Let_def scenario_body_valid scenario_update scenario_db_def
      scenario_user_def)

subsection \<open>Validation\<close>

text \<open>
  Claim C6. A submission that violates any input constraint (game type, domain or
  difficulty outside its enumeration, duration below 1, score or accuracy outside
  \<open>[0, 100]\<close>) is answered 400 with a list naming exactly the violated fields, and the
  store is returned as it was: no session is saved and no user is touched.
\<close>

theorem invalid_submission_rejected:
  assumes "gameType b \<notin> set game_types \<or> gameDomain b \<notin> set game_domains
         \<or> difficulty b \<notin> set difficulties \<or> duration b < 1
         \<or> score b < 0 \<or> 100 < score b \<or> accuracy b < 0 \<or> 100 < accuracy b"
  shows "post_session d uid now b = (BadRequest (validation_errors b), d)
       \<and> validation_errors b \<noteq> []
       \<and> (''gameType'' \<in> set (validation_errors b) \<longleftrightarrow> gameType b \<notin> set game_types)
       \<and> (''domain'' \<in> set (validation_errors b) \<longleftrightarrow> gameDomain b \<notin> set game_domains)
       \<and> (''difficulty'' \<in> set (validation_errors b) \<longleftrightarrow> difficulty b \<notin> set difficulties)
       \<and> (''duration'' \<in> set (validation_errors b) \<longleftrightarrow> duration b < 1)
       \<and> (''score'' \<in> set (validation_errors b) \<longleftrightarrow> score b < 0 \<or> 100 < score b)
       \<and> (''accuracy'' \<in> set (validation_errors b) \<longleftrightarrow> accuracy b < 0 \<or> 100 < accuracy b)"
proof -
  have ne: "validation_errors b \<noteq> []"
    using assms by (auto simp add: validation_errors_Nil)
  have r: "post_session d uid now b = (BadRequest (validation_errors b), d)"
    using ne by (simp add: post_session_def Let_def)
  have f: "(''gameType'' \<in> set (validation_errors b) \<longleftrightarrow> gameType b \<notin> set game_types)"
    "(''domain'' \<in> set (validation_errors b) \<longleftrightarrow> gameDomain b \<notin> set game_domains)"
    "(''difficulty'' \<in> set (validation_errors b) \<longleftrightarrow> difficulty b \<notin> set difficulties)"
    "(''duration'' \<in> set (validation_errors b) \<longleftrightarrow> duration b < 1)"
    "(''score'' \<in> set (validation_errors b) \<longleftrightarrow> score b < 0 \<or> 100 < score b)"
    "(''accuracy'' \<in> set (validation_errors b) \<longleftrightarrow> accuracy b < 0 \<or> 100 < accuracy b)"
    by (auto simp add: validation_errors_def)
  from r ne f show ?thesis by blast
qed

theorem invalid_submission_rejected_witness:
  "duration (scenario_body\<lparr>duration := 0, score := 101\<rparr>) < 1
   \<and> 100 < score (scenario_body\<lparr>duration := 0, score := 101\<rparr>)
   \<and> post_session scenario_db 1 5 (scenario_body\<lparr>duration := 0, score := 101\<rparr>)
       = (BadRequest [''duration'', ''score''], scenario_db)"
proof -
  let ?b = "scenario_body\<lparr>duration := 0, score := 101\<rparr>"
  have h: "gameType ?b \<notin> set game_types \<or> gameDomain ?b \<notin> set game_domains
         \<or> difficulty ?b \<notin> set difficulties \<or> duration ?b < 1
         \<or> score ?b < 0 \<or> 100 < score ?b \<or> accuracy ?b < 0 \<or> 100 < accuracy ?b"
    by (simp add: scenario_body_def)
  have e: "validation_errors ?b = [''duration'', ''score'']"
    by (simp add: validation_errors_def scenario_body_def game_types_def game_domains_def
        difficulties_def)
  from invalid_submission_rejected [OF h, of scenario_db 1 5]
  have "post_session scenario_db 1 5 ?b = (BadRequest (validation_errors ?b), scenario_db)"
    by blast
  then show ?thesis by (simp add: e)
qed


subsection \<open>Streak\<close>

lemma awardBadge_badges_subset:
  "set (badges (fst (awardBadge u b))) \<subseteq> insert b (set (badges u))"
  by (auto simp add: awardBadge_def split: option.splits)

lemma award_loop_badges_subset:
  "set (badges (award_loop u bs)) \<subseteq> set (badges u) \<union> set bs"
proof (induction bs arbitrary: u)
  case Nil
  show ?case by simp
next
  case (Cons b bs)
  obtain u1 aw where a: "awardBadge u b = (u1, aw)" by (cases "awardBadge u b")
  let ?u2 = "if aw then fst (addXP u1 100) else u1"
  have "set (badges ?u2) \<subseteq> insert b (set (badges u))"
    using awardBadge_badges_subset [of u b] a by (simp add: addXP_frame)
  with Cons.IH [of ?u2] show ?case by (auto simp add: a)
qed

lemma candidate_badges_no_streak:
  assumes "streak u \<notin> set [7, 14, 30]"
  shows "\<forall>x\<in>set (candidate_badges u s). badge_id x \<notin> streak_badge_ids"
  using assms by (auto simp add: candidate_badges_def streak_badge_ids_def)

lemma update_user_stats_no_streak_badge:
  assumes "streak u \<notin> set [7, 14, 30]"
    and "x \<in> set (badges (fst (update_user_stats u s)))" and "badge_id x \<in> streak_badge_ids"
  shows "x \<in> set (badges u)"
proof -
  let ?st = "stats (fst (update_user_stats u s))"
  let ?u1 = "fst (addXP (u\<lparr>stats := ?st\<rparr>) (\<lfloor>score s / 10\<rfloor> * 10 + 50))"
  have e: "fst (update_user_stats u s) = award_loop ?u1 (candidate_badges ?u1 s)"
    by (simp add: update_user_stats_def Let_def split_beta checkAndAwardBadges_def
        award_loop_frame addXP_frame)
  have s1: "streak ?u1 = streak u" and b1: "badges ?u1 = badges u"
    by (simp_all add: addXP_frame)
  have "x \<in> set (badges ?u1) \<union> set (candidate_badges ?u1 s)"
    using assms(2) award_loop_badges_subset [of ?u1 "candidate_badges ?u1 s"] e by auto
  moreover have "x \<notin> set (candidate_badges ?u1 s)"
    using candidate_badges_no_streak [of ?u1 s] assms(1,3) s1 by auto
  ultimately show ?thesis using b1 by simp
qed

text \<open>
  Claim C10. The handler never calls \<open>updateStreak\<close>: across any run of session
  submissions a user's \<open>streak\<close>, \<open>bestStreak\<close> and \<open>lastActiveDate\<close> keep their
  values, and for a user whose streak is not 7, 14 or 30 (it is 0 from registration on)
  the endpoint awards no streak badge: any such badge held afterwards was held before.
\<close>

theorem streak_never_updated:
  assumes "map_of (users d) uid = Some u0"
  shows "\<exists>u. map_of (users (submit_all d reqs)) uid = Some u
       \<and> streak u = streak u0 \<and> bestStreak (stats u) = bestStreak (stats u0)
       \<and> lastActiveDate u = lastActiveDate u0
       \<and> (streak u0 \<notin> set [7, 14, 30] \<longrightarrow>
            (\<forall>x\<in>set (badges u). badge_id x \<in> streak_badge_ids \<longrightarrow> x \<in> set (badges u0)))"
proof -
  let ?P = "\<lambda>u. streak u = streak u0 \<and> bestStreak (stats u) = bestStreak (stats u0)
       \<and> lastActiveDate u = lastActiveDate u0
       \<and> (streak u0 \<notin> set [7, 14, 30] \<longrightarrow>
            (\<forall>x\<in>set (badges u). badge_id x \<in> streak_badge_ids \<longrightarrow> x \<in> set (badges u0)))"
  show ?thesis
    using assms
  proof (rule submit_all_invariant [where P = ?P])
    show "?P u0" by simp
  next
    fix u :: user and body :: session_body and now :: int
    assume p: "?P u"
    let ?u' = "fst (update_user_stats u
                 (session_body.extend body \<lparr>userId = uid, createdAt = now\<rparr>))"
    have f: "streak ?u' = streak u0" "bestStreak (stats ?u') = bestStreak (stats u0)"
      "lastActiveDate ?u' = lastActiveDate u0"
      using p by (simp_all add: update_user_stats_frame)
    have "x \<in> set (badges u0)"
      if "streak u0 \<notin> set [7, 14, 30]" "x \<in> set (badges ?u')" "badge_id x \<in> streak_badge_ids"
      for x
    proof -
      have "streak u \<notin> set [7, 14, 30]" using p that(1) by simp
      then have "x \<in> set (badges u)"
        using that(2,3) by (rule update_user_stats_no_streak_badge)
      then show ?thesis using p that(1,3) by blast
    qed
    with f show "?P ?u'" by blast
  qed
qed

theorem streak_never_updated_witness:
  "map_of (users scenario_db) 1 = Some (new_user 0)
   \<and> (\<exists>u. map_of (users (submit_all scenario_db [(1, 5, scenario_body)])) 1 = Some u
         \<and> streak u = 0 \<and> bestStreak (stats u) = 0 \<and> lastActiveDate u = 0
         \<and> (\<forall>x\<in>set (badges u). badge_id x \<notin> streak_badge_ids))"
proof -
  have h: "map_of (users scenario_db) 1 = Some (new_user 0)"
    by (simp add: scenario_db_def)
  from streak_never_updated [OF h, of "[(1, 5, scenario_body)]"] obtain u where
    u: "map_of (users (submit_all scenario_db [(1, 5, scenario_body)])) 1 = Some u"
       "streak u = streak (new_user 0)" "bestStreak (stats u) = bestStreak (stats (new_user 0))"
       "lastActiveDate u = lastActiveDate (new_user 0)"
       "streak (new_user 0) \<notin> set [7, 14, 30] \<longrightarrow>
          (\<forall>x\<in>set (badges u). badge_id x \<in> streak_badge_ids \<longrightarrow> x \<in> set (badges (new_user 0)))"
    by blast
  have "\<forall>x\<in>set (badges u). badge_id x \<notin> streak_badge_ids"
    using u(5) by (auto simp add: new_user_def)
  moreover have "streak u = 0" "bestStreak (stats u) = 0" "lastActiveDate u = 0"
    using u(2-4) by (simp_all add: new_user_def)
  ultimately show ?thesis using h u(1) by blast
qed

section \<open>Properties of the analytics trend\<close>

subsection \<open>Rounding to a double\<close>

lemma pow2_powi: "pow2 e = 2 powi e"
  by (simp add: pow2_def power_int_def power_one_over)

lemma pow2_mono: "e \<le> e' \<Longrightarrow> pow2 e \<le> pow2 e'"
  by (simp add: pow2_powi power_int_increasing)

lemma pow2_pos: "0 < pow2 e"
  by (simp add: pow2_def)

lemma binade_unique:
  assumes "pow2 e \<le> a" and "a < pow2 (e + 1)" and "e0 - int k \<le> e" and "e \<le> e0"
  shows "binade k e0 a = e"
  using assms(3,4)
proof (induction k arbitrary: e0)
  case 0
  then show ?case by simp
next
  case (Suc k)
  show ?case
  proof (cases "pow2 e0 \<le> a")
    case True
    have "e0 = e"
    proof (rule ccontr)
      assume "e0 \<noteq> e"
      with Suc.prems have "e + 1 \<le> e0" by simp
      then have "pow2 (e + 1) \<le> pow2 e0" by (rule pow2_mono)
      with True assms(2) show False by simp
    qed
    with True show ?thesis by simp
  next
    case False
    with assms(1) have "e0 \<noteq> e" by auto
    with Suc.prems have "e0 - 1 - int k \<le> e" "e \<le> e0 - 1" by simp_all
    from Suc.IH [OF this] False show ?thesis by simp
  qed
qed

lemma binade_floor:
  assumes "a < pow2 (e0 - int k + 1)"
  shows "binade k e0 a = e0 - int k"
  using assms
proof (induction k arbitrary: e0)
  case 0
  then show ?case by simp
next
  case (Suc k)
  have "pow2 (e0 - int (Suc k) + 1) \<le> pow2 e0" by (rule pow2_mono) simp
  with Suc.prems have "\<not> pow2 e0 \<le> a" by simp
  moreover have "binade k (e0 - 1) a = e0 - 1 - int k"
    using Suc.prems by (intro Suc.IH) (simp add: algebra_simps)
  ultimately show ?case by simp
qed

lemma exponent_at:
  assumes "pow2 e \<le> \<bar>x\<bar>" and "\<bar>x\<bar> < pow2 (e + 1)" and "- 1022 \<le> e" and "e \<le> 1023"
  shows "exponent x = e"
  unfolding exponent_def using assms by (intro binade_unique) simp_all

lemma exponent_tiny:
  assumes "\<bar>x\<bar> < pow2 (- 1021)"
  shows "exponent x = - 1022"
proof -
  have "binade 2046 1024 \<bar>x\<bar> = 1024 - int 2046"
    using assms by (intro binade_floor) simp
  then show ?thesis by (simp add: exponent_def)
qed

lemma fl_at:
  assumes "pow2 e \<le> \<bar>x\<bar>" and "\<bar>x\<bar> < pow2 (e + 1)" and "- 1022 \<le> e" and "e \<le> 1023"
  shows "fl x =
     (let q = pow2 (e - 52);
          y = of_int (round_half_even (x / q)) * q
      in if pow2 1024 \<le> y then PosInf else if y \<le> - pow2 1024 then NegInf else Fin y)"
  by (simp only: fl_def exponent_at [OF assms])

lemma fl_0: "fl 0 = Fin 0"
proof -
  have "exponent 0 = - 1022" by (rule exponent_tiny) (simp add: pow2_pos)
  then show ?thesis by (simp add: fl_def round_half_even_def pow2_pos not_le)
qed

lemma round_half_even_int: "round_half_even (of_int k) = k"
  by (simp add: round_half_even_def)

lemma fl_int:
  assumes "\<bar>n\<bar> < 2 ^ 53"
  shows "fl (of_int n) = Fin (of_int n)"
proof (cases "n = 0")
  case True
  then show ?thesis by (simp add: fl_0)
next
  case False
  then have "1 \<le> nat \<bar>n\<bar>" by simp
  from ex_power_ivl1 [OF _ this, of 2] obtain e :: nat
    where e: "2 ^ e \<le> nat \<bar>n\<bar>" "nat \<bar>n\<bar> < 2 ^ (e + 1)" by auto
  have a: "real (nat \<bar>n\<bar>) = \<bar>real_of_int n\<bar>" by simp
  have "real (2 ^ e) \<le> real (nat \<bar>n\<bar>)" using e(1) by (rule of_nat_mono)
  then have lo': "2 ^ e \<le> \<bar>real_of_int n\<bar>" by (simp only: a of_nat_power of_nat_numeral)
  have "real (nat \<bar>n\<bar>) < real (2 ^ (e + 1))" using e(2) by (simp only: of_nat_less_iff)
  then have hi': "\<bar>real_of_int n\<bar> < 2 ^ (e + 1)" by (simp only: a of_nat_power of_nat_numeral)
  have n53: "\<bar>real_of_int n\<bar> < 2 ^ 53"
  proof -
    have "real_of_int \<bar>n\<bar> < real_of_int (2 ^ 53)" using assms by (simp only: of_int_less_iff)
    then show ?thesis by simp
  qed
  from lo' n53 have "(2::real) ^ e < 2 ^ 53" by linarith
  then have "e < 53" by (rule power_less_imp_less_exp [rotated]) simp
  then have e52: "e \<le> 52" by simp
  have lo: "pow2 (int e) \<le> \<bar>real_of_int n\<bar>" using lo' by (simp add: pow2_def)
  have hi: "\<bar>real_of_int n\<bar> < pow2 (int e + 1)"
    using hi' by (simp add: pow2_def nat_add_distrib)
  let ?q = "pow2 (int e - 52)"
  have q: "?q = 1 / 2 ^ (52 - e)"
  proof (cases "e = 52")
    case True
    then show ?thesis by (simp add: pow2_def)
  next
    case False
    with e52 have "int e - 52 < 0" "nat (- (int e - 52)) = 52 - e" by simp_all
    then show ?thesis by (simp add: pow2_def)
  qed
  have "real_of_int n / ?q = of_int (n * 2 ^ (52 - e))"
    by (simp add: q)
  then have r: "round_half_even (real_of_int n / ?q) = n * 2 ^ (52 - e)"
    by (simp only: round_half_even_int)
  have y: "of_int (round_half_even (real_of_int n / ?q)) * ?q = real_of_int n"
    unfolding r by (simp add: q)
  have big: "(2::real) ^ 53 \<le> pow2 1024" by (simp add: pow2_def)
  with n53 have b: "\<not> pow2 1024 \<le> real_of_int n" "\<not> real_of_int n \<le> - pow2 1024"
    by linarith+
  have "fl (real_of_int n) =
     (let q = pow2 (int e - 52);
          y = of_int (round_half_even (real_of_int n / q)) * q
      in if pow2 1024 \<le> y then PosInf else if y \<le> - pow2 1024 then NegInf else Fin y)"
    using lo hi e52 by (intro fl_at) simp_all
  then show ?thesis by (simp only: Let_def y b if_False)
qed

lemma fl_numeral: "(numeral k :: int) < 2 ^ 53 \<Longrightarrow> fl (numeral k) = Fin (numeral k)"
  using fl_int [of "numeral k"] by simp

lemma score_session_at: "score (session_at u t x) = x"
  by (simp add: session_at_def session_body.extend_def)

lemma boundary_sums:
  "score_sum (take 5 boundary_history) = Fin 21"
  "score_sum (take 5 (drop 5 boundary_history)) = Fin 20"
  by (simp_all add: boundary_history_def score_sum_def score_session_at fl_numeral)

lemma b1: "fl (21 / 5) = Fin (4728779608739021 / 1125899906842624)"
  by (subst fl_at [where e = 2]) (simp_all add: pow2_def round_half_even_def Let_def)

lemma b2: "fl (225179981368525 / 1125899906842624) = Fin (225179981368525 / 1125899906842624)"
  by (subst fl_at [where e = "- 3"]) (simp_all add: pow2_def round_half_even_def Let_def)

lemma b3: "fl (225179981368525 / 4503599627370496) = Fin (225179981368525 / 4503599627370496)"
  by (subst fl_at [where e = "- 5"]) (simp_all add: pow2_def round_half_even_def Let_def)

lemma b4: "fl (5629499534213125 / 1125899906842624) = Fin (5629499534213125 / 1125899906842624)"
  by (subst fl_at [where e = 2]) (simp_all add: pow2_def round_half_even_def Let_def)

lemma b5: "fl (140737488355328125 / 281474976710656) = Fin (1099511627776001 / 2199023255552)"
  by (subst fl_at [where e = 8]) (simp_all add: pow2_def round_half_even_def Let_def)

lemma boundary_recent: "js_quot (score_sum (take 5 boundary_history)) (Fin 5)
    = Fin (4728779608739021 / 1125899906842624)"
  by (simp add: boundary_sums b1)

lemma boundary_older: "js_quot (score_sum (take 5 (drop 5 boundary_history))) (Fin 5) = Fin 4"
  by (simp add: boundary_sums fl_numeral)

lemma boundary_change:
  "js_mul (js_quot (js_sub (Fin (4728779608739021 / 1125899906842624)) (Fin 4)) (Fin 4)) (Fin 100)
     = Fin (5629499534213125 / 1125899906842624)"
  by (simp add: js_sub_def b2 b3 b4)

lemma boundary_round2: "round2 (Fin (5629499534213125 / 1125899906842624)) = Fin 5"
  by (simp add: round2_def b5 fl_numeral)

subsection \<open>The trend\<close>

lemma trend_unfold:
  assumes "2 \<le> length ss"
  shows "trend (calculatePerformanceTrends ss) =
     trend_label (double_change (double_mean (take 5 ss))
        (js_or (double_mean (take 5 (drop 5 ss))) (double_mean (take 5 ss))))"
  using assms
  by (simp add: calculatePerformanceTrends_def Let_def double_mean_def double_change_def
      trend_label_def)

lemma js_or_defined: "v \<noteq> Fin 0 \<Longrightarrow> v \<noteq> NaN \<Longrightarrow> js_or v w = v"
  by (cases v) simp_all

lemma js_or_fallback: "v = Fin 0 \<or> v = NaN \<Longrightarrow> js_or v w = w"
  by auto

lemma double_mean_Nil: "double_mean [] = NaN"
  by (simp add: double_mean_def score_sum_def)

lemma no_change_stable: "trend_label (double_change r r) = ''stable''"
  by (cases r) (simp_all add: double_change_def js_sub_def trend_label_def fl_0)

text \<open>
  Claim C9, as amended. With the sessions most recent first, the trend compares the mean
  score of the first five with the mean of the next five, both computed in doubles: it is
  \<open>improving\<close> when the relative change so computed is above 5, \<open>declining\<close> when it is
  below minus 5 and \<open>stable\<close> otherwise. A history of at most one session yields
  \<open>stable\<close> with a change of 0; where there is no sixth session, or the older mean is 0,
  the trend is \<open>stable\<close> as well.
\<close>

theorem trend_classification:
  "(length ss \<le> 1 \<longrightarrow>
      calculatePerformanceTrends ss = \<lparr>trend = ''stable'', change = Fin 0, recentAverage = None\<rparr>)
   \<and> (5 < length ss \<and> double_mean (take 5 (drop 5 ss)) \<noteq> Fin 0
        \<and> double_mean (take 5 (drop 5 ss)) \<noteq> NaN \<longrightarrow>
        trend (calculatePerformanceTrends ss) =
          trend_label (double_change (double_mean (take 5 ss)) (double_mean (take 5 (drop 5 ss)))))
   \<and> (1 < length ss \<and> (length ss \<le> 5 \<or> double_mean (take 5 (drop 5 ss)) = Fin 0
        \<or> double_mean (take 5 (drop 5 ss)) = NaN) \<longrightarrow>
        trend (calculatePerformanceTrends ss) = ''stable'')"
proof (intro conjI impI)
  assume "length ss \<le> 1"
  then show "calculatePerformanceTrends ss
      = \<lparr>trend = ''stable'', change = Fin 0, recentAverage = None\<rparr>"
    by (simp add: calculatePerformanceTrends_def)
next
  assume a: "5 < length ss \<and> double_mean (take 5 (drop 5 ss)) \<noteq> Fin 0
        \<and> double_mean (take 5 (drop 5 ss)) \<noteq> NaN"
  then have "2 \<le> length ss" by simp
  then show "trend (calculatePerformanceTrends ss) =
          trend_label (double_change (double_mean (take 5 ss)) (double_mean (take 5 (drop 5 ss))))"
    using a by (simp add: trend_unfold js_or_defined)
next
  assume a: "1 < length ss \<and> (length ss \<le> 5 \<or> double_mean (take 5 (drop 5 ss)) = Fin 0
        \<or> double_mean (take 5 (drop 5 ss)) = NaN)"
  then have l: "2 \<le> length ss" by simp
  have "double_mean (take 5 (drop 5 ss)) = Fin 0 \<or> double_mean (take 5 (drop 5 ss)) = NaN"
  proof (cases "length ss \<le> 5")
    case True
    then show ?thesis by (simp add: double_mean_Nil)
  next
    case False
    with a show ?thesis by simp
  qed
  then have "js_or (double_mean (take 5 (drop 5 ss))) (double_mean (take 5 ss))
      = double_mean (take 5 ss)"
    by (rule js_or_fallback)
  then show "trend (calculatePerformanceTrends ss) = ''stable''"
    using l by (simp add: trend_unfold no_change_stable)
qed

lemma boundary_length: "length boundary_history = 10"
  by (simp add: boundary_history_def)

lemma boundary_means:
  "double_mean (take 5 boundary_history) = Fin (4728779608739021 / 1125899906842624)"
  "double_mean (take 5 (drop 5 boundary_history)) = Fin 4"
  using boundary_recent boundary_older by (simp_all add: double_mean_def boundary_length)

lemma boundary_exact:
  "relative_change (mean_score (take 5 boundary_history))
     (mean_score (take 5 (drop 5 boundary_history))) = 5"
  by (simp add: relative_change_def mean_score_def boundary_history_def score_session_at)

text \<open>
  For the scores 5, 4, 4, 4, 4 after five scores of 4 the relative change is exactly 5
  percent, yet the trend is \<open>improving\<close>: \<open>21 / 5\<close> rounds upwards, the computed change is
  \<open>5 + 5 * 2\<^sup>-\<^sup>5\<^sup>0\<close>, and the change reported beside the label is 5.
\<close>

theorem trend_boundary_counterexample:
  "relative_change (mean_score (take 5 boundary_history))
     (mean_score (take 5 (drop 5 boundary_history))) = 5
   \<and> trend (calculatePerformanceTrends boundary_history) = ''improving''
   \<and> change (calculatePerformanceTrends boundary_history) = Fin 5"
proof -
  have "trend (calculatePerformanceTrends boundary_history) =
      trend_label (double_change (double_mean (take 5 boundary_history))
        (js_or (double_mean (take 5 (drop 5 boundary_history)))
           (double_mean (take 5 boundary_history))))"
    by (rule trend_unfold) (simp add: boundary_length)
  then have t: "trend (calculatePerformanceTrends boundary_history) = ''improving''"
    by (simp only: boundary_means) (simp add: double_change_def boundary_change trend_label_def)
  have c: "change (calculatePerformanceTrends boundary_history) = Fin 5"
    using boundary_recent boundary_older
    by (simp add: calculatePerformanceTrends_def Let_def boundary_length boundary_change
        boundary_round2)
  from boundary_exact t c show ?thesis by blast
qed

lemma trend_history_facts:
  "length trend_history = 10"
  "double_mean (take 5 trend_history) = Fin 90"
  "double_mean (take 5 (drop 5 trend_history)) = Fin 60"
  by (simp_all add: trend_history_def double_mean_def score_sum_def score_session_at fl_numeral)

lemma trend_history_change: "double_change (Fin 90) (Fin 60) = Fin 50"
proof -
  have "fl (1 / 2) = Fin (1 / 2)"
    by (subst fl_at [where e = "- 1"]) (simp_all add: pow2_def round_half_even_def Let_def)
  then show ?thesis by (simp add: double_change_def js_sub_def fl_numeral)
qed

theorem trend_classification_witness:
  "calculatePerformanceTrends [session_at 1 0 70]
     = \<lparr>trend = ''stable'', change = Fin 0, recentAverage = None\<rparr>
   \<and> 5 < length trend_history
   \<and> double_mean (take 5 (drop 5 trend_history)) = Fin 60
   \<and> double_change (double_mean (take 5 trend_history))
        (double_mean (take 5 (drop 5 trend_history))) = Fin 50
   \<and> trend (calculatePerformanceTrends trend_history) = ''improving''
   \<and> trend (calculatePerformanceTrends (take 3 trend_history)) = ''stable''"
proof -
  have a: "calculatePerformanceTrends [session_at 1 0 70]
     = \<lparr>trend = ''stable'', change = Fin 0, recentAverage = None\<rparr>"
    using trend_classification [of "[session_at 1 0 70]"] by simp
  have l: "5 < length trend_history" by (simp add: trend_history_facts)
  have m: "double_mean (take 5 (drop 5 trend_history)) = Fin 60" by (rule trend_history_facts)
  have r: "double_change (double_mean (take 5 trend_history))
        (double_mean (take 5 (drop 5 trend_history))) = Fin 50"
    by (simp only: trend_history_facts trend_history_change)
  have "trend (calculatePerformanceTrends trend_history) =
          trend_label (double_change (double_mean (take 5 trend_history))
              (double_mean (take 5 (drop 5 trend_history))))"
    using trend_classification [of trend_history] l m by simp
  then have b: "trend (calculatePerformanceTrends trend_history) = ''improving''"
    by (simp add: r trend_label_def)
  have c: "trend (calculatePerformanceTrends (take 3 trend_history)) = ''stable''"
    using trend_classification [of "take 3 trend_history"] by (simp add: trend_history_facts)
  from a l m r b c show ?thesis by blast
qed

section \<open>Properties of the leaderboard\<close>

lemma ranked_fields:
  "entry_averageScore (lb_entry.extend e x) = entry_averageScore e"
  "entry_totalSessions (lb_entry.extend e x) = entry_totalSessions e"
  "entry_totalXP (lb_entry.extend e x) = entry_totalXP e"
  "entry_userId (lb_entry.extend e x) = entry_userId e"
  by (simp_all add: lb_entry.extend_def)

lemma ranks_before_extend:
  "ranks_before (lb_entry.extend a x) (lb_entry.extend b y) = ranks_before a b"
  by (simp add: ranks_before_def ranked_fields)

lemma sort_entries_sorted: "sorted_wrt ranks_before (sort_entries es)"
proof -
  let ?k = "\<lambda>e::lb_entry. (- entry_averageScore e, - entry_totalSessions e)"
  have "sorted (map ?k (sort_key ?k es))" by (rule sorted_sort_key)
  then have "sorted_wrt (\<lambda>a b. ?k a \<le> ?k b) (sort_entries es)"
    by (simp add: sorted_map sort_entries_def)
  then show ?thesis
  proof (rule sorted_wrt_mono_rel [rotated])
    fix a b :: lb_entry
    assume "?k a \<le> ?k b"
    then show "ranks_before a b"
      by (auto simp add: ranks_before_def)
  qed
qed

lemma sort_entries_mset: "mset (sort_entries es) = mset es"
  by (simp add: sort_entries_def)

lemma add_ranks_length: "length (add_ranks uid es) = length es"
  by (simp add: add_ranks_def)

lemma add_ranks_nth:
  assumes "i < length es"
  shows "add_ranks uid es ! i
     = lb_entry.extend (es ! i) \<lparr>rank = int i + 1, isCurrentUser = (entry_userId (es ! i) = uid)\<rparr>"
  using assms by (simp add: add_ranks_def nth_enumerate_eq)

lemma add_ranks_sorted:
  "sorted_wrt ranks_before es \<Longrightarrow> sorted_wrt ranks_before (add_ranks uid es)"
proof -
  assume s: "sorted_wrt ranks_before es"
  have "sorted_wrt ranks_before (add_ranks uid es)
      = (\<forall>i j. i < j \<longrightarrow> j < length es \<longrightarrow> ranks_before (add_ranks uid es ! i) (add_ranks uid es ! j))"
    by (simp add: sorted_wrt_iff_nth_less add_ranks_length)
  also have "\<dots> = (\<forall>i j. i < j \<longrightarrow> j < length es \<longrightarrow> ranks_before (es ! i) (es ! j))"
    by (auto simp add: add_ranks_nth ranks_before_extend)
  also have "\<dots> = sorted_wrt ranks_before es"
    by (simp add: sorted_wrt_iff_nth_less)
  finally show ?thesis using s by simp
qed

lemma group_by_user_member:
  assumes "g \<in> set (group_by_user ss)"
  shows "snd g = filter (\<lambda>s. userId s = fst g) ss" and "snd g \<noteq> []"
proof -
  from assms obtain u where u: "u \<in> set (map userId ss)"
    and g: "g = (u, filter (\<lambda>s. userId s = u) ss)"
    by (auto simp add: group_by_user_def)
  show "snd g = filter (\<lambda>s. userId s = fst g) ss" using g by simp
  from u obtain s where "s \<in> set ss" "userId s = u" by auto
  then have "s \<in> set (filter (\<lambda>s. userId s = u) ss)" by simp
  then have "filter (\<lambda>s. userId s = u) ss \<noteq> []" by (rule contrapos_pn) simp
  then show "snd g \<noteq> []" using g by simp
qed

lemma map_filter_member:
  "e \<in> set (List.map_filter f xs) \<longleftrightarrow> (\<exists>x\<in>set xs. f x = Some e)"
  by (induction xs) (auto split: option.splits)

lemma add_ranks_truncate: "map lb_entry.truncate (add_ranks uid es) = es"
  by (rule nth_equalityI)
     (simp_all add: add_ranks_length add_ranks_nth lb_entry.extend_def lb_entry.truncate_def)

lemma get_leaderboard_Some:
  assumes "get_leaderboard d uid timeframe limit now midnight monthStart = Some es"
  shows "0 < limit"
    and "es = add_ranks uid (take (nat limit) (sort_entries
               (leaderboard_entries d (start_date timeframe now midnight monthStart))))"
  using assms by (auto simp add: get_leaderboard_def Let_def split: if_splits)

lemma window_group:
  "map score (filter (\<lambda>s. userId s = u) (in_window d startDate)) = window_scores d startDate u"
  by (simp add: in_window_def window_scores_def)

lemma leaderboard_entry_fields:
  assumes "e \<in> set (leaderboard_entries d startDate)"
  shows "entry_totalXP e
           = round_half_even (sum_list (window_scores d startDate (entry_userId e)) * (1 / 10))"
    and "entry_totalSessions e = int (length (window_scores d startDate (entry_userId e)))"
    and "window_scores d startDate (entry_userId e) \<noteq> []"
proof -
  from assms obtain g where g: "g \<in> set (group_by_user (in_window d startDate))"
    and p: "project_group d g = Some e"
    by (auto simp add: leaderboard_entries_def map_filter_member)
  have sc: "map score (snd g) = window_scores d startDate (fst g)"
    using group_by_user_member(1) [OF g] by (simp add: window_group)
  have ne: "map score (snd g) \<noteq> []"
    using group_by_user_member(2) [OF g] by simp
  from p have id: "entry_userId e = fst g"
    and n: "entry_totalSessions e = int (length (snd g))"
    and x: "entry_totalXP e = round_half_even (sum_list (map (\<lambda>s. score s * (1 / 10)) (snd g)))"
    by (auto simp add: project_group_def split: option.splits)
  have "sum_list (map (\<lambda>s. score s * (1 / 10)) (snd g)) = sum_list (map score (snd g)) * (1 / 10)"
    by (rule sum_list_mult_const)
  then show "entry_totalXP e
           = round_half_even (sum_list (window_scores d startDate (entry_userId e)) * (1 / 10))"
    unfolding id sc [symmetric] x by (rule arg_cong)
  have "length (snd g) = length (map score (snd g))" by simp
  then show "entry_totalSessions e = int (length (window_scores d startDate (entry_userId e)))"
    unfolding id sc [symmetric] n by simp
  show "window_scores d startDate (entry_userId e) \<noteq> []"
    unfolding id sc [symmetric] by (rule ne)
qed

lemma response_entries:
  assumes "get_leaderboard d uid timeframe limit now midnight monthStart = Some es"
    and "e \<in> set es"
  shows "lb_entry.truncate e
     \<in> set (leaderboard_entries d (start_date timeframe now midnight monthStart))"
proof -
  let ?all = "leaderboard_entries d (start_date timeframe now midnight monthStart)"
  let ?top = "take (nat limit) (sort_entries ?all)"
  have "lb_entry.truncate e \<in> set (map lb_entry.truncate es)"
    using assms(2) by simp
  also have "map lb_entry.truncate es = ?top"
    using get_leaderboard_Some(2) [OF assms(1)] by (simp only: add_ranks_truncate)
  finally have "lb_entry.truncate e \<in> set (sort_entries ?all)"
    by (rule in_set_takeD)
  then show ?thesis by (simp add: sort_entries_def)
qed

lemma round_half_even_close: "\<bar>real_of_int (round_half_even x) - x\<bar> \<le> 1 / 2"
proof -
  have "real_of_int \<lfloor>x\<rfloor> \<le> x" "x < real_of_int \<lfloor>x\<rfloor> + 1" by linarith+
  then show ?thesis
    by (auto simp add: round_half_even_def Let_def abs_le_iff)
qed

lemma round_place1_close: "\<bar>round_place1 x - x\<bar> \<le> 1 / 20"
proof -
  have "\<bar>real_of_int (round_half_even (x * 10)) - x * 10\<bar> \<le> 1 / 2"
    by (rule round_half_even_close)
  then show ?thesis by (simp add: round_place1_def abs_le_iff field_simps)
qed

lemma leaderboard_entry_average:
  assumes "e \<in> set (leaderboard_entries d startDate)"
  shows "entry_averageScore e = round_place1 (window_mean d startDate (entry_userId e))"
proof -
  from assms obtain g where g: "g \<in> set (group_by_user (in_window d startDate))"
    and p: "project_group d g = Some e"
    by (auto simp add: leaderboard_entries_def map_filter_member)
  have sc: "map score (snd g) = window_scores d startDate (fst g)"
    using group_by_user_member(1) [OF g] by (simp add: window_group)
  from p have id: "entry_userId e = fst g"
    and a: "entry_averageScore e
        = round_place1 (sum_list (map score (snd g)) / real (length (map score (snd g))))"
    by (auto simp add: project_group_def split: option.splits)
  show ?thesis unfolding id a sc window_mean_def ..
qed

text \<open>
  Claim C7, as amended. Every leaderboard response lists its entries by mean score
  rounded to one decimal, descending, entries with the same rounded mean by session
  count descending; the figure an entry reports is that rounded mean of the user's scores
  in the window. The response is the first \<open>limit\<close> entries of the whole aggregation so
  sorted, and the rank of each entry is its 1-based position. So the reported mean never
  increases along the positions, and the unrounded mean rises by at most 0.1 from one
  position to a later one.
\<close>

theorem leaderboard_sorted_by_rounded_mean:
  assumes "get_leaderboard d uid timeframe limit now midnight monthStart = Some es"
  shows "sorted_wrt ranks_before es
       \<and> (\<forall>e\<in>set es.
             entry_averageScore e
               = round_place1 (window_mean d (start_date timeframe now midnight monthStart)
                                 (entry_userId e))
             \<and> entry_totalSessions e
                 = int (length (window_scores d (start_date timeframe now midnight monthStart)
                                  (entry_userId e))))
       \<and> (\<forall>i j. i \<le> j \<and> j < length es \<longrightarrow>
             entry_averageScore (es ! j) \<le> entry_averageScore (es ! i))
       \<and> (\<forall>i j. i \<le> j \<and> j < length es \<longrightarrow>
             window_mean d (start_date timeframe now midnight monthStart) (entry_userId (es ! j))
               \<le> window_mean d (start_date timeframe now midnight monthStart)
                     (entry_userId (es ! i)) + 1 / 10)
       \<and> (\<forall>i. i < length es \<longrightarrow> rank (es ! i) = int i + 1)
       \<and> 0 < limit
       \<and> map lb_entry.truncate es
           = take (nat limit) (sort_entries
               (leaderboard_entries d (start_date timeframe now midnight monthStart)))
       \<and> mset (sort_entries (leaderboard_entries d (start_date timeframe now midnight monthStart)))
           = mset (leaderboard_entries d (start_date timeframe now midnight monthStart))"
proof -
  let ?sd = "start_date timeframe now midnight monthStart"
  let ?all = "leaderboard_entries d ?sd"
  let ?top = "take (nat limit) (sort_entries ?all)"
  let ?mean = "\<lambda>e. window_mean d ?sd (entry_userId e)"
  have lim: "0 < limit" and es: "es = add_ranks uid ?top"
    using get_leaderboard_Some [OF assms] by simp_all
  have top: "sorted_wrt ranks_before ?top"
    using sort_entries_sorted by (rule sorted_wrt_take)
  have s: "sorted_wrt ranks_before es"
    unfolding es using top by (rule add_ranks_sorted)
  have fields: "entry_averageScore e = round_place1 (?mean e)
      \<and> entry_totalSessions e = int (length (window_scores d ?sd (entry_userId e)))"
    if "e \<in> set es" for e
  proof -
    let ?e = "lb_entry.truncate e"
    have m: "?e \<in> set ?all" using assms that by (rule response_entries)
    have f: "entry_averageScore ?e = entry_averageScore e" "entry_userId ?e = entry_userId e"
      "entry_totalSessions ?e = entry_totalSessions e"
      by (simp_all add: lb_entry.truncate_def)
    show ?thesis
      using leaderboard_entry_average [OF m] leaderboard_entry_fields(2) [OF m]
      by (simp add: f)
  qed
  have mono: "entry_averageScore (es ! j) \<le> entry_averageScore (es ! i)"
    if "i \<le> j \<and> j < length es" for i j
  proof (cases "i = j")
    case True
    then show ?thesis by simp
  next
    case False
    with that have "i < j" "j < length es" by simp_all
    with s have "ranks_before (es ! i) (es ! j)"
      by (simp add: sorted_wrt_iff_nth_less)
    then show ?thesis by (auto simp add: ranks_before_def)
  qed
  have near: "?mean (es ! j) \<le> ?mean (es ! i) + 1 / 10"
    if "i \<le> j \<and> j < length es" for i j
  proof -
    from that have "es ! i \<in> set es" "es ! j \<in> set es" by simp_all
    then have a: "entry_averageScore (es ! i) = round_place1 (?mean (es ! i))"
      and b: "entry_averageScore (es ! j) = round_place1 (?mean (es ! j))"
      using fields by blast+
    have "round_place1 (?mean (es ! j)) \<le> round_place1 (?mean (es ! i))"
      using mono [OF that] by (simp only: a b)
    moreover have "\<bar>round_place1 (?mean (es ! j)) - ?mean (es ! j)\<bar> \<le> 1 / 20"
      "\<bar>round_place1 (?mean (es ! i)) - ?mean (es ! i)\<bar> \<le> 1 / 20"
      by (rule round_place1_close)+
    ultimately show ?thesis by linarith
  qed
  have r: "rank (es ! i) = int i + 1" if "i < length es" for i
    using that unfolding es by (simp add: add_ranks_nth add_ranks_length lb_entry.extend_def)
  have t: "map lb_entry.truncate es = ?top"
    unfolding es by (rule add_ranks_truncate)
  from s fields mono near r lim t sort_entries_mset show ?thesis by blast
qed

text \<open>
  Claim C8, as amended. For every entry of a leaderboard response, \<open>totalXP\<close> is one
  tenth of the sum of that user's scores in the window, rounded to an integer: the mean
  score times 0.1 times the number of sessions counted, not the mean times 0.1.
\<close>

theorem totalXP_is_tenth_of_score_sum:
  assumes "get_leaderboard d uid timeframe limit now midnight monthStart = Some es"
    and "e \<in> set es"
  shows "entry_totalXP e
           = round_half_even
               (window_mean d (start_date timeframe now midnight monthStart) (entry_userId e)
                  * real_of_int (entry_totalSessions e) * (1 / 10))
       \<and> 0 < entry_totalSessions e
       \<and> entry_totalSessions e
           = int (length (window_scores d (start_date timeframe now midnight monthStart)
                            (entry_userId e)))"
proof -
  let ?sd = "start_date timeframe now midnight monthStart"
  let ?e = "lb_entry.truncate e"
  have m: "?e \<in> set (leaderboard_entries d ?sd)"
    using assms by (rule response_entries)
  have f: "entry_totalXP ?e = entry_totalXP e" "entry_userId ?e = entry_userId e"
    "entry_totalSessions ?e = entry_totalSessions e"
    by (simp_all add: lb_entry.truncate_def)
  let ?w = "window_scores d ?sd (entry_userId e)"
  have x: "entry_totalXP e = round_half_even (sum_list ?w * (1 / 10))"
    and n: "entry_totalSessions e = int (length ?w)" and ne: "?w \<noteq> []"
    using leaderboard_entry_fields [OF m] by (simp_all add: f)
  have "window_mean d ?sd (entry_userId e) * real_of_int (entry_totalSessions e) = sum_list ?w"
    using ne by (simp add: window_mean_def n)
  then have "entry_totalXP e = round_half_even
               (window_mean d ?sd (entry_userId e) * real_of_int (entry_totalSessions e) * (1 / 10))"
    using x by simp
  moreover have "0 < entry_totalSessions e" using n ne by simp
  ultimately show ?thesis using n by blast
qed

subsection \<open>The leaderboard fixture evaluated\<close>

lemma lb_db_window: "in_window lb_db 5 = [session_at 2 10 80, session_at 1 11 100,
                         session_at 3 12 100, session_at 1 13 100]"
  by (simp add: in_window_def lb_db_def session_at_def session_body.extend_def)

lemma lb_groups: "group_by_user (in_window lb_db 5) =
   [(2, [session_at 2 10 80]), (3, [session_at 3 12 100]), (1, [session_at 1 11 100, session_at 1 13 100])]"
  by (simp add: lb_db_window group_by_user_def session_at_def session_body.extend_def)

lemma rhe: "round_half_even 1000 = 1000" "round_half_even 800 = 800" "round_half_even 20 = 20"
  "round_half_even 10 = 10" "round_half_even 8 = 8"
  by (simp_all add: round_half_even_def)

lemma lb_entries: "map (\<lambda>e. (entry_userId e, entry_averageScore e, entry_totalSessions e, entry_totalXP e))
    (leaderboard_entries lb_db 5) = [(2, 80, 1, 8), (3, 100, 1, 10), (1, 100, 2, 20)]"
  unfolding leaderboard_entries_def lb_groups
  by (simp add: project_group_def lb_db_def round_place1_def rhe
     session_at_def session_body.extend_def)

lemma lb_sorted: "map (\<lambda>e. (entry_userId e, entry_averageScore e, entry_totalSessions e, entry_totalXP e))
    (sort_entries (leaderboard_entries lb_db 5)) = [(1, 100, 2, 20), (3, 100, 1, 10), (2, 80, 1, 8)]"
  unfolding leaderboard_entries_def lb_groups
  by (simp add: sort_entries_def project_group_def lb_db_def round_place1_def rhe
     session_at_def session_body.extend_def)

lemma lb_start: "start_date ''weekly'' (week_ms + 5) 0 0 = 5"
  by (simp add: start_date_def week_ms_def)

lemma lb_response:
  "map (\<lambda>e. (rank e, entry_userId e, entry_averageScore e, entry_totalSessions e, entry_totalXP e,
              isCurrentUser e))
     (add_ranks 3 (take (nat 2) (sort_entries (leaderboard_entries lb_db 5))))
   = [(1, 1, 100, 2, 20, False), (2, 3, 100, 1, 10, True)]"
  unfolding leaderboard_entries_def lb_groups
  by (simp add: add_ranks_def sort_entries_def project_group_def lb_db_def round_place1_def rhe
     session_at_def session_body.extend_def lb_entry.extend_def)

lemma lb_window_mean: "window_mean lb_db 5 1 = 100"
  by (simp add: window_mean_def window_scores_def lb_db_def session_at_def session_body.extend_def)

lemma lb_get: "get_leaderboard lb_db 3 ''weekly'' 2 (week_ms + 5) 0 0 = Some lb_top2"
  by (simp add: get_leaderboard_def lb_start lb_top2_def)

lemma lb_top2_value:
  "lb_top2 =
     [\<lparr>entry_userId = 1, entry_level = 1, entry_totalSessions = 2, entry_averageScore = 100,
       entry_totalXP = 20, entry_bestScore = 100, rank = 1, isCurrentUser = False\<rparr>,
      \<lparr>entry_userId = 3, entry_level = 1, entry_totalSessions = 1, entry_averageScore = 100,
       entry_totalXP = 10, entry_bestScore = 100, rank = 2, isCurrentUser = True\<rparr>]"
  unfolding lb_top2_def leaderboard_entries_def lb_groups
  by (simp add: add_ranks_def sort_entries_def project_group_def lb_db_def round_place1_def rhe
     session_at_def session_body.extend_def lb_entry.extend_def new_user_def)

lemma lb_top2_hd:
  "hd lb_top2 \<in> set lb_top2" "entry_userId (hd lb_top2) = 1" "entry_totalSessions (hd lb_top2) = 2"
  "entry_totalXP (hd lb_top2) = 20"
  by (simp_all add: lb_top2_value)

lemma rounding_window: "in_window rounding_db 5 = sessions rounding_db"
  by (simp add: in_window_def rounding_db_def session_at_def session_body.extend_def)

lemma rounding_groups: "group_by_user (sessions rounding_db) =
   [(1, [session_at 1 10 80.03125]), (2, [session_at 2 11 80, session_at 2 12 80])]"
  by (simp add: rounding_db_def group_by_user_def session_at_def session_body.extend_def)

lemma rounding_rhe: "round_half_even (12805 / 16) = 800" "round_half_even 800 = 800"
  "round_half_even (2561 / 320) = 8" "round_half_even 16 = 16"
  by (simp_all add: round_half_even_def)

lemma rounding_top_value:
  "rounding_top =
     [\<lparr>entry_userId = 2, entry_level = 1, entry_totalSessions = 2, entry_averageScore = 80,
       entry_totalXP = 16, entry_bestScore = 80, rank = 1, isCurrentUser = False\<rparr>,
      \<lparr>entry_userId = 1, entry_level = 1, entry_totalSessions = 1, entry_averageScore = 80,
       entry_totalXP = 8, entry_bestScore = 80.03125, rank = 2, isCurrentUser = True\<rparr>]"
  unfolding rounding_top_def leaderboard_entries_def rounding_window rounding_groups
  by (simp add: add_ranks_def sort_entries_def project_group_def rounding_db_def round_place1_def
      rounding_rhe session_at_def session_body.extend_def lb_entry.extend_def new_user_def)

lemma rounding_means: "window_mean rounding_db 5 2 = 80" "window_mean rounding_db 5 1 = 80.03125"
  by (simp_all add: window_mean_def window_scores_def rounding_db_def session_at_def
      session_body.extend_def)

lemma rounding_get:
  "get_leaderboard rounding_db 1 ''weekly'' 10 (week_ms + 5) 0 0 = Some rounding_top"
  by (simp add: get_leaderboard_def lb_start rounding_top_def)

theorem leaderboard_sorted_by_rounded_mean_witness:
  "get_leaderboard rounding_db 1 ''weekly'' 10 (week_ms + 5) 0 0 = Some rounding_top
   \<and> sorted_wrt ranks_before rounding_top
   \<and> map (\<lambda>e. (rank e, entry_userId e, entry_averageScore e, entry_totalSessions e)) rounding_top
       = [(1, 2, 80, 2), (2, 1, 80, 1)]
   \<and> round_place1 (window_mean rounding_db 5 2) = 80
   \<and> round_place1 (window_mean rounding_db 5 1) = 80"
proof -
  note t = leaderboard_sorted_by_rounded_mean [OF rounding_get]
  from t have s: "sorted_wrt ranks_before rounding_top" by blast
  have m: "rounding_top ! 0 \<in> set rounding_top" "rounding_top ! 1 \<in> set rounding_top"
    "entry_userId (rounding_top ! 0) = 2" "entry_userId (rounding_top ! 1) = 1"
    "entry_averageScore (rounding_top ! 0) = 80" "entry_averageScore (rounding_top ! 1) = 80"
    by (simp_all add: rounding_top_value)
  from t m(1) have "entry_averageScore (rounding_top ! 0)
      = round_place1 (window_mean rounding_db (start_date ''weekly'' (week_ms + 5) 0 0)
          (entry_userId (rounding_top ! 0)))"
    by blast
  then have a: "round_place1 (window_mean rounding_db 5 2) = 80"
    by (simp only: m lb_start)
  from t m(2) have "entry_averageScore (rounding_top ! 1)
      = round_place1 (window_mean rounding_db (start_date ''weekly'' (week_ms + 5) 0 0)
          (entry_userId (rounding_top ! 1)))"
    by blast
  then have b: "round_place1 (window_mean rounding_db 5 1) = 80"
    by (simp only: m lb_start)
  have v: "map (\<lambda>e. (rank e, entry_userId e, entry_averageScore e, entry_totalSessions e))
      rounding_top = [(1, 2, 80, 2), (2, 1, 80, 1)]"
    by (simp add: rounding_top_value)
  from rounding_get s v a b show ?thesis by blast
qed

text \<open>
  In that store the response puts user 2, whose mean score is 80, before user 1, whose
  mean score is 80.03125: both round to 80.0 and user 2 has more sessions.
\<close>

theorem leaderboard_true_mean_counterexample:
  "get_leaderboard rounding_db 1 ''weekly'' 10 (week_ms + 5) 0 0 = Some rounding_top
   \<and> map entry_userId rounding_top = [2, 1]
   \<and> window_mean rounding_db 5 2 = 80
   \<and> window_mean rounding_db 5 1 = 80.03125
   \<and> window_mean rounding_db 5 2 < window_mean rounding_db 5 1"
proof -
  have "map entry_userId rounding_top = [2, 1]"
    by (simp add: rounding_top_value)
  moreover have "window_mean rounding_db 5 2 < window_mean rounding_db 5 1"
    by (simp only: rounding_means) simp
  ultimately show ?thesis using rounding_get rounding_means by blast
qed

theorem totalXP_is_tenth_of_score_sum_witness:
  "get_leaderboard lb_db 3 ''weekly'' 2 (week_ms + 5) 0 0 = Some lb_top2
   \<and> hd lb_top2 \<in> set lb_top2
   \<and> entry_userId (hd lb_top2) = 1
   \<and> window_mean lb_db 5 1 = 100
   \<and> entry_totalSessions (hd lb_top2) = 2
   \<and> entry_totalXP (hd lb_top2) = round_half_even (100 * 2 * (1 / 10))"
proof -
  have "entry_totalXP (hd lb_top2)
      = round_half_even
          (window_mean lb_db (start_date ''weekly'' (week_ms + 5) 0 0) (entry_userId (hd lb_top2))
             * real_of_int (entry_totalSessions (hd lb_top2)) * (1 / 10))"
    using totalXP_is_tenth_of_score_sum [OF lb_get lb_top2_hd(1)] by blast
  then have "entry_totalXP (hd lb_top2) = round_half_even (100 * 2 * (1 / 10))"
    by (simp only: lb_start lb_top2_hd(2,3) lb_window_mean of_int_numeral)
  with lb_get lb_top2_hd(1-3) lb_window_mean show ?thesis by blast
qed

text \<open>
  In that response user 1, with two sessions of score 100 in the window, is credited
  20, where one tenth of the mean score is 10.
\<close>

theorem totalXP_mean_counterexample:
  "get_leaderboard lb_db 3 ''weekly'' 2 (week_ms + 5) 0 0 = Some lb_top2
   \<and> entry_userId (hd lb_top2) = 1
   \<and> entry_totalXP (hd lb_top2) = 20
   \<and> round_half_even (window_mean lb_db 5 1 * (1 / 10)) = 10"
proof -
  have "round_half_even (window_mean lb_db 5 1 * (1 / 10)) = 10"
    by (simp only: lb_window_mean) (simp add: rhe)
  with lb_get lb_top2_hd(2,4) show ?thesis by blast
qed

section \<open>Properties of the refresh-token rotation\<close>

lemma update_one_jti:
  "map jti (update_one P (\<lambda>d. d\<lparr>isBlacklisted := True\<rparr>) ds) = map jti ds"
  by (induction ds) simp_all

lemma update_one_blacklisted:
  "d \<in> set (update_one P (\<lambda>d. d\<lparr>isBlacklisted := True\<rparr>) ds) \<Longrightarrow>
   isBlacklisted d \<or> d \<in> set ds"
  by (induction ds) (auto split: if_splits)

lemma update_one_keeps_blacklisted:
  "\<forall>d\<in>set ds. jti d = j \<longrightarrow> isBlacklisted d \<Longrightarrow>
   \<forall>d\<in>set (update_one P (\<lambda>d. d\<lparr>isBlacklisted := True\<rparr>) ds). jti d = j \<longrightarrow> isBlacklisted d"
  by (induction ds) (auto split: if_splits)

lemma update_one_unique:
  assumes "distinct (map jti ds)" and "d \<in> set (update_one (\<lambda>d. jti d = j) (\<lambda>d. d\<lparr>isBlacklisted := True\<rparr>) ds)"
    and "jti d = j"
  shows "isBlacklisted d"
  using assms
proof (induction ds)
  case Nil
  then show ?case by simp
next
  case (Cons x xs)
  show ?case
  proof (cases "jti x = j")
    case True
    then have "j \<notin> set (map jti xs)" using Cons.prems(1) by auto
    then have "\<forall>y\<in>set xs. jti y \<noteq> j" by auto
    with Cons.prems(2,3) True show ?thesis by auto
  next
    case False
    with Cons show ?thesis by auto
  qed
qed

lemma blacklist_spends:
  assumes "distinct (map jti (refreshTokens st))" and "j \<in> set (map jti (refreshTokens st))"
  shows "spent j (blacklistRefreshToken st j)"
  using assms update_one_unique [of "refreshTokens st" _ j]
  by (auto simp add: spent_def blacklistRefreshToken_def update_one_jti simp flip: set_map)

lemma blacklist_keeps_spent: "spent j st \<Longrightarrow> spent j (blacklistRefreshToken st k)"
  using update_one_keeps_blacklisted [of "refreshTokens st" j]
  by (simp add: spent_def blacklistRefreshToken_def update_one_jti)

lemma revoke_keeps_spent: "spent j st \<Longrightarrow> spent j (revokeAllUserTokens st uid)"
  by (auto simp add: spent_def revokeAllUserTokens_def)

lemma generate_keeps_spent:
  "spent j st \<Longrightarrow> generateRefreshToken st uid k now = Some (t, st') \<Longrightarrow> spent j st'"
  by (auto simp add: spent_def generateRefreshToken_def split: if_splits)

lemma middleware_keeps_spent:
  assumes "spent j st"
  shows "spent j (snd (refreshTokenMiddleware st c k now))"
proof (cases c)
  case None
  with assms show ?thesis by (simp add: refreshTokenMiddleware_def)
next
  case (Some t)
  show ?thesis
  proof (cases "verifyRefreshToken st t now")
    case None
    with Some assms show ?thesis by (simp add: refreshTokenMiddleware_def)
  next
    case v: (Some p)
    obtain decoded doc where p: "p = (decoded, doc)" by (cases p)
    show ?thesis
    proof (cases "jwtUserId decoded \<in> set (accounts st)")
      case False
      with Some v p assms show ?thesis by (simp add: refreshTokenMiddleware_def)
    next
      case True
      let ?st1 = "blacklistRefreshToken st (jwtJti decoded)"
      have s1: "spent j ?st1" using assms by (rule blacklist_keeps_spent)
      show ?thesis
      proof (cases "generateRefreshToken ?st1 (jwtUserId decoded) k now")
        case None
        with Some v p True s1 show ?thesis
          by (simp add: refreshTokenMiddleware_def Let_def)
      next
        case g: (Some q)
        obtain r st2 where q: "q = (r, st2)" by (cases q)
        have "spent j st2" using s1 g q generate_keeps_spent by blast
        with Some v p True g q show ?thesis
          by (simp add: refreshTokenMiddleware_def Let_def)
      qed
    qed
  qed
qed

lemma auth_step_keeps_spent: "spent j st \<Longrightarrow> spent j (auth_step st ev)"
proof (cases ev)
  case (Login uid k now)
  assume "spent j st"
  then show ?thesis
    using Login generate_keeps_spent [of j st uid k now]
    by (auto split: option.splits)
next
  case (Refresh c k now)
  assume "spent j st"
  then show ?thesis using Refresh by (simp add: middleware_keeps_spent)
next
  case (Logout u)
  assume "spent j st"
  then show ?thesis using Logout by (cases u) (simp_all add: revoke_keeps_spent)
qed

lemma run_keeps_spent: "spent j st \<Longrightarrow> spent j (foldl auth_step st evs)"
  by (induction evs arbitrary: st) (simp_all add: auth_step_keeps_spent)

lemma spent_rejected:
  assumes "spent (jwtJti t) st"
  shows "refreshTokenMiddleware st (Some t) k now = (Unauthorized ''Invalid refresh token.'', st)"
proof -
  have "find (\<lambda>d. jti d = jwtJti t \<and> tokenUserId d = jwtUserId t \<and> \<not> isBlacklisted d)
          (refreshTokens st) = None"
    using assms by (auto simp add: spent_def find_None_iff)
  then have "verifyRefreshToken st t now = None"
    by (simp add: verifyRefreshToken_def)
  then show ?thesis by (simp add: refreshTokenMiddleware_def)
qed

lemma middleware_success:
  assumes "refreshTokenMiddleware st (Some t) k now = (Next a r, st')"
  shows "jwtJti t \<in> set (map jti (refreshTokens st))"
    and "generateRefreshToken (blacklistRefreshToken st (jwtJti t)) (jwtUserId t) k now = Some (r, st')"
proof -
  from assms obtain doc where v: "verifyRefreshToken st t now = Some (t, doc)"
    by (auto simp add: refreshTokenMiddleware_def verifyRefreshToken_def
        split: option.splits if_splits)
  then have "find (\<lambda>d. jti d = jwtJti t \<and> tokenUserId d = jwtUserId t \<and> \<not> isBlacklisted d)
          (refreshTokens st) = Some doc"
    by (auto simp add: verifyRefreshToken_def split: option.splits if_splits)
  then have "doc \<in> set (refreshTokens st)" "jti doc = jwtJti t"
    by (auto simp add: find_Some_iff)
  then show "jwtJti t \<in> set (map jti (refreshTokens st))" by force
  show "generateRefreshToken (blacklistRefreshToken st (jwtJti t)) (jwtUserId t) k now = Some (r, st')"
    using assms v
    by (auto simp add: refreshTokenMiddleware_def Let_def split: option.splits if_splits)
qed

text \<open>Every event keeps the jtis of the store unique.\<close>

lemma generate_distinct:
  "distinct (map jti (refreshTokens st)) \<Longrightarrow>
   generateRefreshToken st uid k now = Some (t, st') \<Longrightarrow> distinct (map jti (refreshTokens st'))"
  by (auto simp add: generateRefreshToken_def split: if_splits)

lemma middleware_distinct:
  assumes "distinct (map jti (refreshTokens st))"
  shows "distinct (map jti (refreshTokens (snd (refreshTokenMiddleware st c k now))))"
proof -
  have b: "distinct (map jti (refreshTokens (blacklistRefreshToken st j)))" for j
    using assms by (simp add: blacklistRefreshToken_def update_one_jti)
  show ?thesis
    using assms b
    by (auto simp add: refreshTokenMiddleware_def Let_def split: option.splits
        intro: generate_distinct [OF b])
qed

lemma auth_step_distinct:
  "distinct (map jti (refreshTokens st)) \<Longrightarrow> distinct (map jti (refreshTokens (auth_step st ev)))"
proof (cases ev)
  case (Login uid k now)
  assume "distinct (map jti (refreshTokens st))"
  then show ?thesis using Login generate_distinct [of st uid k now]
    by (auto split: option.splits)
next
  case (Refresh c k now)
  assume "distinct (map jti (refreshTokens st))"
  then show ?thesis using Refresh by (simp add: middleware_distinct)
next
  case (Logout u)
  assume d: "distinct (map jti (refreshTokens st))"
  have "map jti (refreshTokens (revokeAllUserTokens st uid)) = map jti (refreshTokens st)" for uid
    by (simp add: revokeAllUserTokens_def comp_def)
  with d show ?thesis using Logout by (cases u) simp_all
qed

lemma run_distinct:
  "distinct (map jti (refreshTokens st)) \<Longrightarrow>
   distinct (map jti (refreshTokens (foldl auth_step st evs)))"
  by (induction evs arbitrary: st) (simp_all add: auth_step_distinct)

text \<open>
  Claim C4. In a store whose jtis are unique, as the schema's index keeps them, a
  refresh that succeeds with a token has blacklisted the record of its jti before the new
  pair was generated, and from then on, whatever logins, refreshes and logouts come in
  between, every refresh presenting that token again is answered 401: a token refreshes at
  most once.
\<close>

theorem refresh_token_single_use:
  assumes "distinct (map jti (refreshTokens st))"
    and "refreshTokenMiddleware st (Some t) k now = (Next a r, st')"
  shows "generateRefreshToken (blacklistRefreshToken st (jwtJti t)) (jwtUserId t) k now
           = Some (r, st')
       \<and> (\<forall>d\<in>set (refreshTokens st'). jti d = jwtJti t \<longrightarrow> isBlacklisted d)
       \<and> (\<forall>evs k' now'.
            fst (refreshTokenMiddleware (foldl auth_step st' evs) (Some t) k' now')
              = Unauthorized ''Invalid refresh token.'')"
proof -
  let ?st1 = "blacklistRefreshToken st (jwtJti t)"
  have g: "generateRefreshToken ?st1 (jwtUserId t) k now = Some (r, st')"
    using assms(2) by (rule middleware_success(2))
  have "spent (jwtJti t) ?st1"
    using assms(1) middleware_success(1) [OF assms(2)] by (rule blacklist_spends)
  then have s: "spent (jwtJti t) st'"
    using g by (rule generate_keeps_spent)
  then have b: "\<forall>d\<in>set (refreshTokens st'). jti d = jwtJti t \<longrightarrow> isBlacklisted d"
    by (simp add: spent_def)
  have "fst (refreshTokenMiddleware (foldl auth_step st' evs) (Some t) k' now')
              = Unauthorized ''Invalid refresh token.''" for evs k' now'
    using run_keeps_spent [OF s, of evs] by (simp add: spent_rejected)
  with g b show ?thesis by blast
qed

theorem refresh_token_single_use_witness:
  "distinct (map jti (refreshTokens auth_fixture))
   \<and> refreshTokenMiddleware auth_fixture (Some issued_token) ''jti-b'' 10
       = (Next (generateAccessToken 1 10) rotated_token, rotated_state)
   \<and> fst (refreshTokenMiddleware rotated_state (Some issued_token) ''jti-c'' 20)
       = Unauthorized ''Invalid refresh token.''
   \<and> fst (refreshTokenMiddleware
            (foldl auth_step rotated_state [Login 1 ''jti-d'' 30, Logout (Some 1)])
            (Some issued_token) ''jti-e'' 40)
       = Unauthorized ''Invalid refresh token.''"
proof -
  have h1: "distinct (map jti (refreshTokens auth_fixture))"
    by (simp add: auth_fixture_def)
  have h2: "refreshTokenMiddleware auth_fixture (Some issued_token) ''jti-b'' 10
       = (Next (generateAccessToken 1 10) rotated_token, rotated_state)"
    by (simp add: refreshTokenMiddleware_def verifyRefreshToken_def jwt_verify_def
        blacklistRefreshToken_def generateRefreshToken_def auth_fixture_def issued_token_def
        rotated_token_def rotated_state_def seven_days_def Let_def)
  note t = refresh_token_single_use [OF h1 h2]
  from t have a: "fst (refreshTokenMiddleware (foldl auth_step rotated_state [])
        (Some issued_token) ''jti-c'' 20) = Unauthorized ''Invalid refresh token.''"
    by blast
  from t have b: "fst (refreshTokenMiddleware
        (foldl auth_step rotated_state [Login 1 ''jti-d'' 30, Logout (Some 1)])
        (Some issued_token) ''jti-e'' 40) = Unauthorized ''Invalid refresh token.''"
    by blast
  from a have "fst (refreshTokenMiddleware rotated_state (Some issued_token) ''jti-c'' 20)
      = Unauthorized ''Invalid refresh token.''"
    by simp
  with h1 h2 b show ?thesis by blast
qed


end
